theory Spec2Isabelle
  imports Main "HOL-Library.Finite_Map" "HOL-Library.List_Lexorder" "HOL-Library.Char_ord"
begin

section \<open>Library functions used by errors.go\<close>

text \<open>
  Go strings are byte sequences; \<open>string\<close> (a list of 8-bit characters) is the same
  data. The functions of this section are the few functions of the Go standard library
  that errors.go calls and that are small enough to be written out: \<open>strings.Contains\<close>,
  \<open>strings.HasPrefix\<close>, \<open>strings.IndexRune\<close> (for an ASCII rune), \<open>strings.Join\<close>,
  \<open>strings.TrimSpace\<close>, \<open>fmt.Sprintf("%d", n)\<close> and \<open>http.StatusText\<close>.
\<close>

definition HasPrefix :: "string \<Rightarrow> string \<Rightarrow> bool" where
  "HasPrefix s p = (length p \<le> length s \<and> take (length p) s = p)"

text \<open>\<open>strings.Contains(s, substr)\<close>: is there an index at which \<open>substr\<close> starts.\<close>

fun Contains :: "string \<Rightarrow> string \<Rightarrow> bool" where
  "Contains [] substr = (substr = [])"
| "Contains (c # cs) substr = (HasPrefix (c # cs) substr \<or> Contains cs substr)"

text \<open>
  \<open>strings.IndexRune(s, r)\<close> for a rune below 0x80, which is one byte: the index of the
  first occurrence, \<open>None\<close> where Go returns \<open>-1\<close>.
\<close>

fun IndexRune :: "string \<Rightarrow> char \<Rightarrow> nat option" where
  "IndexRune [] r = None"
| "IndexRune (c # cs) r =
     (if c = r then Some 0 else map_option Suc (IndexRune cs r))"

fun Join :: "string list \<Rightarrow> string \<Rightarrow> string" where
  "Join [] sep = []"
| "Join [e] sep = e"
| "Join (e # es) sep = e @ sep @ Join es sep"

text \<open>\<open>fmt.Sprintf("%d", n)\<close>: decimal digits, with a minus sign for a negative number.\<close>

definition digit_char :: "nat \<Rightarrow> char" where
  "digit_char d = ''0123456789'' ! (d mod 10)"

fun decimal :: "nat \<Rightarrow> string" where
  "decimal n = (if n < 10 then [digit_char n] else decimal (n div 10) @ [digit_char (n mod 10)])"

declare decimal.simps [simp del]

definition Sprintf_d :: "int \<Rightarrow> string" where
  "Sprintf_d n = (if n < 0 then CHR ''-'' # decimal (nat (- n)) else decimal (nat n))"

text \<open>
  \<open>http.StatusText\<close>: the reason phrase of a status code, the empty string for a code
  that net/http does not know.
\<close>

definition StatusText :: "int \<Rightarrow> string" where
  "StatusText code =
    (if code = 100 then ''Continue''
     else if code = 101 then ''Switching Protocols''
     else if code = 102 then ''Processing''
     else if code = 103 then ''Early Hints''
     else if code = 200 then ''OK''
     else if code = 201 then ''Created''
     else if code = 202 then ''Accepted''
     else if code = 203 then ''Non-Authoritative Information''
     else if code = 204 then ''No Content''
     else if code = 205 then ''Reset Content''
     else if code = 206 then ''Partial Content''
     else if code = 207 then ''Multi-Status''
     else if code = 208 then ''Already Reported''
     else if code = 226 then ''IM Used''
     else if code = 300 then ''Multiple Choices''
     else if code = 301 then ''Moved Permanently''
     else if code = 302 then ''Found''
     else if code = 303 then ''See Other''
     else if code = 304 then ''Not Modified''
     else if code = 305 then ''Use Proxy''
     else if code = 307 then ''Temporary Redirect''
     else if code = 308 then ''Permanent Redirect''
     else if code = 400 then ''Bad Request''
     else if code = 401 then ''Unauthorized''
     else if code = 402 then ''Payment Required''
     else if code = 403 then ''Forbidden''
     else if code = 404 then ''Not Found''
     else if code = 405 then ''Method Not Allowed''
     else if code = 406 then ''Not Acceptable''
     else if code = 407 then ''Proxy Authentication Required''
     else if code = 408 then ''Request Timeout''
     else if code = 409 then ''Conflict''
     else if code = 410 then ''Gone''
     else if code = 411 then ''Length Required''
     else if code = 412 then ''Precondition Failed''
     else if code = 413 then ''Request Entity Too Large''
     else if code = 414 then ''Request URI Too Long''
     else if code = 415 then ''Unsupported Media Type''
     else if code = 416 then ''Requested Range Not Satisfiable''
     else if code = 417 then ''Expectation Failed''
     else if code = 418 then ''I'' @ [CHR 0x27] @ ''m a teapot''
     else if code = 421 then ''Misdirected Request''
     else if code = 422 then ''Unprocessable Entity''
     else if code = 423 then ''Locked''
     else if code = 424 then ''Failed Dependency''
     else if code = 425 then ''Too Early''
     else if code = 426 then ''Upgrade Required''
     else if code = 428 then ''Precondition Required''
     else if code = 429 then ''Too Many Requests''
     else if code = 431 then ''Request Header Fields Too Large''
     else if code = 451 then ''Unavailable For Legal Reasons''
     else if code = 500 then ''Internal Server Error''
     else if code = 501 then ''Not Implemented''
     else if code = 502 then ''Bad Gateway''
     else if code = 503 then ''Service Unavailable''
     else if code = 504 then ''Gateway Timeout''
     else if code = 505 then ''HTTP Version Not Supported''
     else if code = 506 then ''Variant Also Negotiates''
     else if code = 507 then ''Insufficient Storage''
     else if code = 508 then ''Loop Detected''
     else if code = 510 then ''Not Extended''
     else if code = 511 then ''Network Authentication Required''
     else [])"

section \<open>The error model\<close>

text \<open>
  \<open>type StatusError struct { StatusCode int; Message string }\<close>. A Go \<open>int\<close> is a
  64-bit integer; the code only compares and prints it, so \<open>int\<close> stands for it.
\<close>

record StatusError =
  StatusCode :: int
  Message :: string

text \<open>The method \<open>func (err *StatusError) Error() string\<close>, with its three-way switch.\<close>

definition Error :: "StatusError \<Rightarrow> string" where
  "Error err =
    (let code = Sprintf_d (StatusError.StatusCode err);
         text = StatusText (StatusError.StatusCode err)
     in if Contains (Message err) code \<and> Contains (Message err) text then Message err
        else if Message err = [] then code @ '' '' @ text
        else code @ '' '' @ text @ '': '' @ Message err)"

text \<open>
  \<open>strings.TrimSpace\<close> removes the runes for which \<open>unicode.IsSpace\<close> holds from both
  ends. \<open>space_runes\<close> lists their UTF-8 encodings: the six ASCII white-space bytes,
  U+0085, U+00A0, U+1680, U+2000 to U+200A, U+2028, U+2029, U+202F, U+205F and U+3000.
  A string starts (ends) with a white-space rune exactly when one of these encodings is
  a prefix (suffix) of it.
\<close>

definition HasSuffix :: "string \<Rightarrow> string \<Rightarrow> bool" where
  "HasSuffix s suffix =
     (length suffix \<le> length s \<and> drop (length s - length suffix) s = suffix)"

definition space_runes :: "string list" where
  "space_runes =
     [[CHR 0x09], [CHR 0x0A], [CHR 0x0B], [CHR 0x0C], [CHR 0x0D], [CHR 0x20],
      [CHR 0xC2, CHR 0x85], [CHR 0xC2, CHR 0xA0],
      [CHR 0xE1, CHR 0x9A, CHR 0x80],
      [CHR 0xE2, CHR 0x80, CHR 0x80], [CHR 0xE2, CHR 0x80, CHR 0x81],
      [CHR 0xE2, CHR 0x80, CHR 0x82], [CHR 0xE2, CHR 0x80, CHR 0x83],
      [CHR 0xE2, CHR 0x80, CHR 0x84], [CHR 0xE2, CHR 0x80, CHR 0x85],
      [CHR 0xE2, CHR 0x80, CHR 0x86], [CHR 0xE2, CHR 0x80, CHR 0x87],
      [CHR 0xE2, CHR 0x80, CHR 0x88], [CHR 0xE2, CHR 0x80, CHR 0x89],
      [CHR 0xE2, CHR 0x80, CHR 0x8A],
      [CHR 0xE2, CHR 0x80, CHR 0xA8], [CHR 0xE2, CHR 0x80, CHR 0xA9],
      [CHR 0xE2, CHR 0x80, CHR 0xAF], [CHR 0xE2, CHR 0x81, CHR 0x9F],
      [CHR 0xE3, CHR 0x80, CHR 0x80]]"

definition leading_space :: "string \<Rightarrow> nat" where
  "leading_space s = (case find (HasPrefix s) space_runes of None \<Rightarrow> 0 | Some w \<Rightarrow> length w)"

definition trailing_space :: "string \<Rightarrow> nat" where
  "trailing_space s = (case find (HasSuffix s) space_runes of None \<Rightarrow> 0 | Some w \<Rightarrow> length w)"

function TrimLeftSpace :: "string \<Rightarrow> string" where
  "TrimLeftSpace s =
     (if leading_space s = 0 then s else TrimLeftSpace (drop (leading_space s) s))"
  by pat_completeness auto
termination
proof -
  have "leading_space [] = 0"
    by (simp add: leading_space_def space_runes_def HasPrefix_def)
  then have "length (drop (leading_space s) s) < length s" if "leading_space s \<noteq> 0" for s
    using that by (cases s) auto
  then show ?thesis
    by (relation "measure length") auto
qed

function TrimRightSpace :: "string \<Rightarrow> string" where
  "TrimRightSpace s =
     (if trailing_space s = 0 then s
      else TrimRightSpace (take (length s - trailing_space s) s))"
  by pat_completeness auto
termination
proof -
  have "trailing_space [] = 0"
    by (simp add: trailing_space_def space_runes_def HasSuffix_def)
  then have "length (take (length s - trailing_space s) s) < length s"
    if "trailing_space s \<noteq> 0" for s
    using that by (cases s) auto
  then show ?thesis
    by (relation "measure length") auto
qed

declare TrimLeftSpace.simps [simp del] TrimRightSpace.simps [simp del]

definition TrimSpace :: "string \<Rightarrow> string" where
  "TrimSpace s = TrimRightSpace (TrimLeftSpace s)"

section \<open>The two regular expressions\<close>

text \<open>
  \<open>nlre = regexp.MustCompile(`(\r?\n)+`)\<close> and \<open>space = regexp.MustCompile(`\s\s+`)\<close>.
  Go's regexp package matches leftmost first and its repetitions are greedy;
  \<open>ReplaceAllString\<close> scans from the left, replaces each match it finds and goes on
  after the match. Both patterns only mention ASCII bytes, which never occur inside a
  multi-byte UTF-8 sequence, so matching byte by byte is matching rune by rune; the two
  replacement texts the code passes contain no \<open>$\<close>, so they are inserted as they are.

  \<open>nlre_unit\<close> matches one \<open>\r?\n\<close> at the start of the input and returns the rest,
  \<open>nlre_more\<close> then takes as many further units as there are (the greedy \<open>+\<close>).
\<close>

definition LF :: char where "LF = CHR 0x0A"
definition CR :: char where "CR = CHR 0x0D"

fun nlre_unit :: "string \<Rightarrow> string option" where
  "nlre_unit [] = None"
| "nlre_unit [c] = (if c = LF then Some [] else None)"
| "nlre_unit (c # d # r) =
     (if c = CR \<and> d = LF then Some r else if c = LF then Some (d # r) else None)"

function nlre_more :: "string \<Rightarrow> string" where
  "nlre_more s = (case nlre_unit s of None \<Rightarrow> s | Some r \<Rightarrow> nlre_more r)"
  by pat_completeness auto
termination
proof -
  have shorter: "length r < length s" if "nlre_unit s = Some r" for s r
    using that by (induction s rule: nlre_unit.induct) (auto split: if_splits)
  show ?thesis
    by (relation "measure length") (auto simp: shorter)
qed

declare nlre_more.simps [simp del]

definition nlre_match :: "string \<Rightarrow> string option" where
  "nlre_match s = map_option nlre_more (nlre_unit s)"

function nlre_ReplaceAllString :: "string \<Rightarrow> string \<Rightarrow> string" where
  "nlre_ReplaceAllString [] repl = []"
| "nlre_ReplaceAllString (c # cs) repl =
     (case nlre_match (c # cs) of
        Some rest \<Rightarrow> repl @ nlre_ReplaceAllString rest repl
      | None \<Rightarrow> c # nlre_ReplaceAllString cs repl)"
  by pat_completeness auto
termination
proof -
  have unit: "length r < length s" if "nlre_unit s = Some r" for s r
    using that by (induction s rule: nlre_unit.induct) (auto split: if_splits)
  have more: "length (nlre_more s) \<le> length s" for s
  proof (induction s rule: nlre_more.induct)
    case (1 s)
    show ?case
    proof (cases "nlre_unit s")
      case None
      then show ?thesis by (simp add: nlre_more.simps [of s])
    next
      case (Some r)
      with 1 unit [OF Some] show ?thesis by (simp add: nlre_more.simps [of s])
    qed
  qed
  have dec: "length rest < length s" if "nlre_match s = Some rest" for s rest
  proof -
    from that obtain r where r: "nlre_unit s = Some r" and "rest = nlre_more r"
      by (auto simp: nlre_match_def)
    with unit [OF r] more [of r] show ?thesis by simp
  qed
  show ?thesis
    by (relation "measure (\<lambda>(s, repl). length s)") (auto dest: dec)
qed

text \<open>
  \<open>\s\<close> is the class \<open>[\t\n\f\r ]\<close> (it has no vertical tab). A match of \<open>\s\s+\<close>
  is two white-space bytes and every white-space byte that follows them.
\<close>

definition is_space :: "char \<Rightarrow> bool" where
  "is_space c =
     (c = CHR 0x09 \<or> c = CHR 0x0A \<or> c = CHR 0x0C \<or> c = CHR 0x0D \<or> c = CHR 0x20)"

fun space_match :: "string \<Rightarrow> string option" where
  "space_match (c # d # r) =
     (if is_space c \<and> is_space d then Some (dropWhile is_space r) else None)"
| "space_match _ = None"

function space_ReplaceAllString :: "string \<Rightarrow> string \<Rightarrow> string" where
  "space_ReplaceAllString [] repl = []"
| "space_ReplaceAllString (c # cs) repl =
     (case space_match (c # cs) of
        Some rest \<Rightarrow> repl @ space_ReplaceAllString rest repl
      | None \<Rightarrow> c # space_ReplaceAllString cs repl)"
  by pat_completeness auto
termination
proof -
  have dec: "length rest < length s" if "space_match s = Some rest" for s rest
    using that
    by (induction s rule: space_match.induct)
       (auto split: if_splits intro: le_less_trans [OF length_dropWhile_le])
  show ?thesis
    by (relation "measure (\<lambda>(s, repl). length s)") (auto dest: dec)
qed

text \<open>
  Two notions to state what the replacements achieve: a string that starts with a
  white-space byte, and a string with two adjacent white-space bytes.
\<close>

definition starts_space :: "string \<Rightarrow> bool" where
  "starts_space s = (case s of [] \<Rightarrow> False | c # _ \<Rightarrow> is_space c)"

fun has_space_run :: "string \<Rightarrow> bool" where
  "has_space_run (c # d # r) = ((is_space c \<and> is_space d) \<or> has_space_run (d # r))"
| "has_space_run _ = False"

section \<open>Responses\<close>

text \<open>
  The body of a response is an \<open>io.ReadCloser\<close>. It is modelled by the bytes it still
  has to deliver (the stream ends with EOF after them) and the operations performed on
  it so far. \<open>io.Copy\<close> into a \<open>strings.Builder\<close> delivers every remaining byte and
  discards the error; \<open>Close\<close> is recorded, its error discarded as in \<open>_ = resp.Body.Close()\<close>.
\<close>

datatype body_op = OpRead | OpClose

record ReadCloser =
  unread :: string
  ops :: "body_op list"

definition io_Copy :: "ReadCloser \<Rightarrow> string \<times> ReadCloser" where
  "io_Copy b = (unread b, b\<lparr>unread := [], ops := ops b @ [OpRead]\<rparr>)"

definition Close :: "ReadCloser \<Rightarrow> ReadCloser" where
  "Close b = b\<lparr>ops := ops b @ [OpClose]\<rparr>"

text \<open>
  \<open>http.Request\<close> and \<open>http.Response\<close>, with the fields the code reads. A Go map
  is a finite map (\<open>http.Header\<close> is a \<open>map[string][]string\<close>). Pointers that
  may be nil are options: the body, the request, and the URL of the request (which
  stands for what \<open>URL.String()\<close> returns). Dereferencing nil panics.
\<close>

record http_Request =
  Method :: string
  URL :: "string option"

record http_Response =
  StatusCode :: int
  Header :: "(string, string list) fmap"
  Body :: "ReadCloser option"
  Request :: "http_Request option"

datatype panic = NilPointerDereference

text \<open>\<open>Header.Get\<close>: the first value stored under the key, the empty string if there is none.\<close>

definition Header_Get :: "(string, string list) fmap \<Rightarrow> string \<Rightarrow> string" where
  "Header_Get h key =
     (case fmlookup h key of None \<Rightarrow> [] | Some vs \<Rightarrow> (case vs of [] \<Rightarrow> [] | v # _ \<Rightarrow> v))"

text \<open>
  What the code calls and this development does not write out is a parameter:
  \<^item> \<open>mime_parse\<close>: \<open>mime.ParseMediaType\<close> on a non-empty header value, giving the
    error text or the media type (the parameters of the media type are dropped by the
    caller);
  \<^item> \<open>HTML2Text\<close>: \<open>html2text.HTML2Text\<close>;
  \<^item> \<open>json_Decode\<close>: \<open>json.NewDecoder(body).Decode(&doc)\<close> for a
    \<open>map[string]interface{}\<close>, from the bytes the body has to deliver to the error text
    or the map, and the number of bytes the decoder has taken from the stream when it
    returns (it stops at the end of the first JSON value or at the first error, and
    reads the stream in chunks, so this may be any part of the stream);
  \<^item> \<open>range_keys\<close>: the order in which \<open>for k := range doc\<close> visits the keys, which Go
    leaves unspecified;
  \<^item> \<open>Sprintf_v\<close>: \<open>fmt.Sprintf("%v", x)\<close> for a decoded value.
  The type \<open>'v\<close> is the type of decoded JSON values.
\<close>

record 'v externals =
  mime_parse :: "string \<Rightarrow> string + string"
  HTML2Text :: "string \<Rightarrow> string"
  json_Decode :: "string \<Rightarrow> (string + (string, 'v) fmap) \<times> nat"
  range_keys :: "(string, 'v) fmap \<Rightarrow> string list"
  Sprintf_v :: "'v \<Rightarrow> string"

text \<open>
  \<open>mime.ParseMediaType\<close> rejects the empty string with \<open>mime: no media type\<close>; that
  is the value \<open>Header.Get\<close> gives for an absent header.
\<close>

definition ParseMediaType :: "'v externals \<Rightarrow> string \<Rightarrow> string + string" where
  "ParseMediaType ext v = (if v = [] then Inl ''mime: no media type'' else mime_parse ext v)"

text \<open>The range loop enumerates the keys of the map, each once.\<close>

definition range_ok :: "'v externals \<Rightarrow> (string, 'v) fmap \<Rightarrow> bool" where
  "range_ok ext doc =
     (distinct (range_keys ext doc) \<and> fset_of_list (range_keys ext doc) = fmdom doc)"

section \<open>extractMessage\<close>

text \<open>Lines 60 to 64: the media type of the response, \<open>text/plain\<close> if it does not parse.\<close>

definition parsed_mtype :: "'v externals \<Rightarrow> http_Response \<Rightarrow> string" where
  "parsed_mtype ext resp =
     (case ParseMediaType ext (Header_Get (Header resp) ''Content-Type'') of
        Inl err \<Rightarrow> ''text/plain''
      | Inr mtype \<Rightarrow> mtype)"

text \<open>Lines 71 to 75: a vendor type is turned back into \<open>application/type\<close>.\<close>

definition vendor_mtype :: "string \<Rightarrow> string" where
  "vendor_mtype mtype =
     (if HasPrefix mtype ''application/vnd.'' then
        (case IndexRune mtype CHR ''+'' of
           Some i \<Rightarrow> ''application/'' @ drop (i + 1) mtype
         | None \<Rightarrow> mtype)
      else mtype)"

text \<open>Lines 95 to 105: the keys of the document, sorted, each with its value.\<close>

definition doc_field :: "'v externals \<Rightarrow> (string, 'v) fmap \<Rightarrow> string \<Rightarrow> string" where
  "doc_field ext doc k =
     k @ '': '' @ (case fmlookup doc k of Some v \<Rightarrow> Sprintf_v ext v | None \<Rightarrow> ''<nil>'')"

definition doc_message :: "'v externals \<Rightarrow> (string, 'v) fmap \<Rightarrow> string" where
  "doc_message ext doc =
     (let keys = sort (range_keys ext doc);
          fields = map (doc_field ext doc) keys
      in Join fields '', '')"

text \<open>
  The decoder reads from the body: the bytes it has taken are gone from the stream, the
  others are still to be read. As for \<open>io.Copy\<close>, the call counts as one read of the
  body.
\<close>

definition Decoder_Decode ::
  "'v externals \<Rightarrow> ReadCloser \<Rightarrow> (string + (string, 'v) fmap) \<times> ReadCloser" where
  "Decoder_Decode ext b =
     (let (res, n) = json_Decode ext (unread b)
      in (res, b\<lparr>unread := drop n (unread b), ops := ops b @ [OpRead]\<rparr>))"

text \<open>
  \<open>extractMessage\<close> returns the message and the response with what was done to its
  body. Reading a nil body panics.
\<close>

definition extractMessage ::
  "'v externals \<Rightarrow> http_Response \<Rightarrow> panic + (string \<times> http_Response)" where
  "extractMessage ext resp =
     (let mtype = vendor_mtype (parsed_mtype ext resp)
      in if mtype = ''text/plain'' then
           (case Body resp of
              None \<Rightarrow> Inl NilPointerDereference
            | Some b \<Rightarrow>
                (let (out, b') = io_Copy b
                 in Inr (out, resp\<lparr>Body := Some b'\<rparr>)))
         else if mtype = ''text/html'' then
           (case Body resp of
              None \<Rightarrow> Inl NilPointerDereference
            | Some b \<Rightarrow>
                (let (out, b') = io_Copy b;
                     body = TrimSpace (HTML2Text ext out)
                 in Inr (space_ReplaceAllString (nlre_ReplaceAllString body '': '') '' '',
                         resp\<lparr>Body := Some b'\<rparr>)))
         else if mtype = ''application/json'' then
           (case Body resp of
              None \<Rightarrow> Inl NilPointerDereference
            | Some b \<Rightarrow>
                (let (res, b') = Decoder_Decode ext b
                 in case res of
                      Inl err \<Rightarrow>
                        Inr (''<invalid json in response body: '' @ err @ ''>'',
                             resp\<lparr>Body := Some b'\<rparr>)
                    | Inr doc \<Rightarrow> Inr (doc_message ext doc, resp\<lparr>Body := Some b'\<rparr>)))
         else Inr ([], resp))"

section \<open>Checking a response\<close>

text \<open>
  A Go \<open>error\<close> is nil (\<open>None\<close>) or a value: the \<open>*url.Error\<close> with fields \<open>Op\<close>,
  \<open>URL\<close> and \<open>Err\<close> that CheckResponse builds, or an error \<open>'e\<close> that came from
  somewhere else (the transport).
\<close>

datatype 'e error = url_Error string string StatusError | Other 'e

type_synonym ResponseChecker = "http_Response \<Rightarrow> bool"

definition DefaultResponseChecker :: ResponseChecker where
  "DefaultResponseChecker resp =
     (http_Response.StatusCode resp \<ge> 200 \<and> http_Response.StatusCode resp < 300)"

text \<open>CheckResponse returns the error and the response as the call has left it.\<close>

definition CheckResponse ::
  "'v externals \<Rightarrow> http_Response \<Rightarrow> ResponseChecker \<Rightarrow> panic + ('e error option \<times> http_Response)"
  where
  "CheckResponse ext resp checker =
     (if checker resp then Inr (None, resp)
      else
        (case extractMessage ext resp of
           Inl p \<Rightarrow> Inl p
         | Inr (msg, resp') \<Rightarrow>
             (let err = \<lparr>StatusError.StatusCode = http_Response.StatusCode resp, Message = msg\<rparr>
              in case Request resp of
                   None \<Rightarrow>
                     Inr (Some (url_Error ''<unknown method>'' ''<unknown request>'' err), resp')
                 | Some req \<Rightarrow>
                     (case URL req of
                        None \<Rightarrow> Inl NilPointerDereference
                      | Some u \<Rightarrow> Inr (Some (url_Error (Method req) u err), resp')))))"

definition CheckStatus ::
  "'v externals \<Rightarrow> http_Response \<Rightarrow> panic + ('e error option \<times> http_Response)" where
  "CheckStatus ext resp = CheckResponse ext resp DefaultResponseChecker"

text \<open>The closure of CheckStatusOneOf: the loop over \<open>expectedStatuses\<close>.\<close>

fun OneOf_checker :: "int list \<Rightarrow> ResponseChecker" where
  "OneOf_checker [] resp = False"
| "OneOf_checker (status # rest) resp =
     (if status = http_Response.StatusCode resp then True else OneOf_checker rest resp)"

definition CheckStatusOneOf ::
  "'v externals \<Rightarrow> http_Response \<Rightarrow> int list \<Rightarrow> panic + ('e error option \<times> http_Response)"
  where
  "CheckStatusOneOf ext resp expectedStatuses =
     CheckResponse ext resp (OneOf_checker expectedStatuses)"

text \<open>
  \<open>Check(resp, err)\<close> returns a response pointer and an error. The third component of
  the result is the response object as the call has left it (\<open>None\<close> when \<open>resp\<close> was
  nil), so that what happened to the body can be read off also when the returned
  pointer is nil.
\<close>

definition close_Body :: "http_Response \<Rightarrow> http_Response" where
  "close_Body resp =
     (case Body resp of None \<Rightarrow> resp | Some b \<Rightarrow> resp\<lparr>Body := Some (Close b)\<rparr>)"

definition Check ::
  "'v externals \<Rightarrow> http_Response option \<Rightarrow> 'e error option \<Rightarrow>
     panic + (http_Response option \<times> 'e error option \<times> http_Response option)" where
  "Check ext resp err =
     (case (if err = None then
              (case resp of
                 None \<Rightarrow> Inl NilPointerDereference
               | Some r \<Rightarrow>
                   (case CheckStatus ext r of
                      Inl p \<Rightarrow> Inl p
                    | Inr (err', r') \<Rightarrow> Inr (err', Some r')))
            else Inr (err, resp)) of
        Inl p \<Rightarrow> Inl p
      | Inr (err', resp') \<Rightarrow>
          (if err' \<noteq> None then Inr (None, err', map_option close_Body resp')
           else Inr (resp', None, resp')))"

text \<open>The operations performed on the body of a response so far.\<close>

definition body_ops :: "http_Response \<Rightarrow> body_op list" where
  "body_ops resp = (case Body resp of None \<Rightarrow> [] | Some b \<Rightarrow> ops b)"

section \<open>A sample environment\<close>

text \<open>
  To run the model on concrete responses the parameters need values. The sample
  environment is deliberately small: a media type parser that cuts the parameters off
  at the first semicolon, trims the rest and asks for a type and, if there is a slash,
  a subtype after it; an HTML converter that drops the tags; a JSON decoder for objects
  whose members are strings without escapes (a later member with the same key wins and
  what follows the object is ignored, as in encoding/json; an empty body is \<open>EOF\<close>
  and every other failure is reported as \<open>unexpected EOF\<close>, the error for a body
  that is cut off), which takes the whole of the body from the stream, as the decoder
  does with a body short enough to arrive in one chunk; a range loop that visits the keys in descending order; and
  \<open>%v\<close> for a string, which prints the string itself. On the inputs used below they
  give what the Go libraries give.
\<close>

definition sample_mime_parse :: "string \<Rightarrow> string + string" where
  "sample_mime_parse v =
     (let mediatype = TrimSpace (takeWhile (\<lambda>c. c \<noteq> CHR '';'') v);
          typ = takeWhile (\<lambda>c. c \<noteq> CHR ''/'') mediatype;
          rest = dropWhile (\<lambda>c. c \<noteq> CHR ''/'') mediatype
      in if typ = [] then Inl ''mime: no media type''
         else if rest = ''/'' then Inl ''mime: expected token after slash''
         else Inr mediatype)"

fun drop_tags :: "bool \<Rightarrow> string \<Rightarrow> string" where
  "drop_tags tag [] = []"
| "drop_tags tag (c # cs) =
     (if c = CHR ''<'' then drop_tags True cs
      else if tag then drop_tags (c \<noteq> CHR ''>'') cs
      else c # drop_tags False cs)"

datatype token = TLBrace | TRBrace | TColon | TComma | TString string | TBad

fun lex :: "string option \<Rightarrow> string \<Rightarrow> token list" where
  "lex None [] = []"
| "lex (Some acc) [] = [TBad]"
| "lex None (c # cs) =
     (if c = CHR 0x22 then lex (Some []) cs
      else if c = CHR ''{'' then TLBrace # lex None cs
      else if c = CHR ''}'' then TRBrace # lex None cs
      else if c = CHR '':'' then TColon # lex None cs
      else if c = CHR '','' then TComma # lex None cs
      else if c = CHR 0x20 \<or> c = CHR 0x09 \<or> c = CHR 0x0A \<or> c = CHR 0x0D then lex None cs
      else [TBad])"
| "lex (Some acc) (c # cs) =
     (if c = CHR 0x22 then TString acc # lex None cs
      else if c = CHR 0x5C then [TBad]
      else lex (Some (acc @ [c])) cs)"

fun members :: "token list \<Rightarrow> (string \<times> string) list option" where
  "members (TString k # TColon # TString v # TRBrace # ts) = Some [(k, v)]"
| "members (TString k # TColon # TString v # TComma # ts) =
     map_option ((#) (k, v)) (members ts)"
| "members ts = None"

definition sample_json_Decode :: "string \<Rightarrow> (string + (string, string) fmap) \<times> nat" where
  "sample_json_Decode data =
     (case lex None data of
        [] \<Rightarrow> (Inl ''EOF'', length data)
      | t # ts \<Rightarrow>
          if t \<noteq> TLBrace then (Inl ''unexpected EOF'', length data)
          else
            (case ts of
               TRBrace # _ \<Rightarrow> (Inr fmempty, length data)
             | _ \<Rightarrow>
                 (case members ts of
                    Some kvs \<Rightarrow> (Inr (fmap_of_list (rev kvs)), length data)
                  | None \<Rightarrow> (Inl ''unexpected EOF'', length data))))"

definition sample_ext :: "string externals" where
  "sample_ext =
     \<lparr>mime_parse = sample_mime_parse,
      HTML2Text = drop_tags False,
      json_Decode = sample_json_Decode,
      range_keys = (\<lambda>doc. rev (sorted_list_of_fset (fmdom doc))),
      Sprintf_v = (\<lambda>v. v)\<rparr>"

text \<open>Sample responses: a status code, a content type, a body, and the request GET http://x/y.\<close>

definition sample_Body :: "string \<Rightarrow> ReadCloser" where
  "sample_Body data = \<lparr>unread = data, ops = []\<rparr>"

definition sample_Response :: "int \<Rightarrow> string \<Rightarrow> string \<Rightarrow> http_Response" where
  "sample_Response code ctype data =
     \<lparr>StatusCode = code,
      Header = fmap_of_list [(''Content-Type'', [ctype])],
      Body = Some (sample_Body data),
      Request = Some \<lparr>Method = ''GET'', URL = Some ''http://x/y''\<rparr>\<rparr>"

section \<open>Facts about the library functions\<close>

lemma HasPrefix_iff: "HasPrefix s p \<longleftrightarrow> (\<exists>r. s = p @ r)"
proof
  assume "HasPrefix s p"
  then have "s = p @ drop (length p) s"
    by (metis HasPrefix_def append_take_drop_id)
  then show "\<exists>r. s = p @ r" ..
next
  assume "\<exists>r. s = p @ r"
  then show "HasPrefix s p" by (auto simp: HasPrefix_def)
qed

lemma Contains_iff: "Contains s substr \<longleftrightarrow> (\<exists>a b. s = a @ substr @ b)"
proof (induction s)
  case Nil
  show ?case by auto
next
  case (Cons c cs)
  show ?case
  proof
    assume "Contains (c # cs) substr"
    then consider "HasPrefix (c # cs) substr" | "Contains cs substr" by auto
    then show "\<exists>a b. c # cs = a @ substr @ b"
    proof cases
      case 1
      then obtain r where "c # cs = substr @ r" by (auto simp: HasPrefix_iff)
      then have "c # cs = [] @ substr @ r" by simp
      then show ?thesis by blast
    next
      case 2
      with Cons.IH obtain a b where "cs = a @ substr @ b" by auto
      then have "c # cs = (c # a) @ substr @ b" by simp
      then show ?thesis by blast
    qed
  next
    assume "\<exists>a b. c # cs = a @ substr @ b"
    then obtain a b where ab: "c # cs = a @ substr @ b" by auto
    show "Contains (c # cs) substr"
    proof (cases a)
      case Nil
      with ab have "HasPrefix (c # cs) substr" by (auto simp: HasPrefix_iff)
      then show ?thesis by simp
    next
      case (Cons x a')
      with ab have "cs = a' @ substr @ b" by simp
      with Cons.IH have "Contains cs substr" by blast
      then show ?thesis by simp
    qed
  qed
qed

lemma Contains_empty: "Contains s []"
proof -
  have "s = [] @ [] @ s" by simp
  then show ?thesis unfolding Contains_iff by blast
qed

lemma decimal_nonempty: "decimal n \<noteq> []"
  by (subst decimal.simps) simp

lemma Sprintf_d_nonempty: "Sprintf_d n \<noteq> []"
  by (simp add: Sprintf_d_def decimal_nonempty)

lemma CheckResponse_accept:
  "checker resp \<Longrightarrow> CheckResponse ext resp checker = Inr (None, resp)"
  by (simp add: CheckResponse_def)

lemma CheckResponse_reject:
  "\<not> checker resp \<Longrightarrow>
   CheckResponse ext resp checker =
     (case extractMessage ext resp of
        Inl p \<Rightarrow> Inl p
      | Inr (msg, resp') \<Rightarrow>
          (case Request resp of
             None \<Rightarrow>
               Inr (Some (url_Error ''<unknown method>'' ''<unknown request>''
                      \<lparr>StatusError.StatusCode = http_Response.StatusCode resp, Message = msg\<rparr>), resp')
           | Some req \<Rightarrow>
               (case URL req of
                  None \<Rightarrow> Inl NilPointerDereference
                | Some u \<Rightarrow>
                    Inr (Some (url_Error (Method req) u
                      \<lparr>StatusError.StatusCode = http_Response.StatusCode resp, Message = msg\<rparr>), resp'))))"
  by (simp add: CheckResponse_def Let_def split: sum.splits prod.splits option.splits)

lemma CheckResponse_None_iff:
  "CheckResponse ext resp checker = Inr (None, resp') \<longleftrightarrow> checker resp \<and> resp' = resp"
  by (auto simp: CheckResponse_def Let_def split: sum.splits prod.splits option.splits)

lemma OneOf_checker_iff:
  "OneOf_checker expected resp \<longleftrightarrow> http_Response.StatusCode resp \<in> set expected"
  by (induction expected) auto

section \<open>Rendering a StatusError\<close>

text \<open>
  C1. Rendering a StatusError follows the three-way rule. With \<open>code\<close> the decimal text
  of the status code and \<open>text\<close> its reason phrase: a message that has both \<open>code\<close> and
  \<open>text\<close> as substrings is returned unchanged; otherwise an empty message gives
  \<open>code text\<close>, and any other message gives \<open>code text: message\<close>. Status 500 with the
  empty message renders as \<open>500 Internal Server Error\<close>, status 400 with the message
  \<open>bad field\<close> as \<open>400 Bad Request: bad field\<close>.
\<close>

theorem Error_three_way:
  "(let code = Sprintf_d (StatusError.StatusCode err);
        text = StatusText (StatusError.StatusCode err);
        both = ((\<exists>a b. Message err = a @ code @ b) \<and> (\<exists>a b. Message err = a @ text @ b))
    in (both \<longrightarrow> Error err = Message err)
     \<and> (\<not> both \<and> Message err = [] \<longrightarrow> Error err = code @ '' '' @ text)
     \<and> (\<not> both \<and> Message err \<noteq> [] \<longrightarrow> Error err = code @ '' '' @ text @ '': '' @ Message err))
   \<and> Error \<lparr>StatusError.StatusCode = 500, Message = []\<rparr> = ''500 Internal Server Error''
   \<and> Error \<lparr>StatusError.StatusCode = 400, Message = ''bad field''\<rparr> = ''400 Bad Request: bad field''"
proof -
  have ex1: "Error \<lparr>StatusError.StatusCode = 500, Message = []\<rparr> = ''500 Internal Server Error''"
    by code_simp
  have ex2: "Error \<lparr>StatusError.StatusCode = 400, Message = ''bad field''\<rparr> = ''400 Bad Request: bad field''"
    by code_simp
  have rule: "let code = Sprintf_d (StatusError.StatusCode err);
        text = StatusText (StatusError.StatusCode err);
        both = ((\<exists>a b. Message err = a @ code @ b) \<and> (\<exists>a b. Message err = a @ text @ b))
    in (both \<longrightarrow> Error err = Message err)
     \<and> (\<not> both \<and> Message err = [] \<longrightarrow> Error err = code @ '' '' @ text)
     \<and> (\<not> both \<and> Message err \<noteq> [] \<longrightarrow> Error err = code @ '' '' @ text @ '': '' @ Message err)"
    unfolding Let_def Contains_iff [symmetric] by (simp add: Error_def Let_def Contains_empty)
  from rule ex1 ex2 show ?thesis by blast
qed

theorem Error_three_way_witness:
  "Error \<lparr>StatusError.StatusCode = 404, Message = ''Error 404 (Not Found)!!1''\<rparr> = ''Error 404 (Not Found)!!1''
   \<and> Error \<lparr>StatusError.StatusCode = 500, Message = []\<rparr> = ''500 Internal Server Error''
   \<and> Error \<lparr>StatusError.StatusCode = 400, Message = ''bad field''\<rparr> = ''400 Bad Request: bad field''"
proof -
  have c: "Sprintf_d 404 = ''404''" by code_simp
  have t: "StatusText 404 = ''Not Found''" by code_simp
  have m1: "''Error 404 (Not Found)!!1'' = ''Error '' @ ''404'' @ '' (Not Found)!!1''" by simp
  have m2: "''Error 404 (Not Found)!!1'' = ''Error 404 ('' @ ''Not Found'' @ '')!!1''" by simp
  from Error_three_way [of "\<lparr>StatusError.StatusCode = 404, Message = ''Error 404 (Not Found)!!1''\<rparr>"]
  show ?thesis
    unfolding Let_def c t using m1 m2
    by (metis StatusError.select_convs(1) StatusError.select_convs(2) c t)
qed

text \<open>
  C10. A status code without a reason phrase: \<open>StatusText\<close> gives the empty string,
  which every message contains. So a message that contains the decimal status code is
  returned unchanged, and the empty message renders as the decimal code followed by one
  space: code 599 renders as \<open>599\<close> and a space.
\<close>

theorem Error_without_reason_phrase:
  "(StatusText (StatusError.StatusCode err) = [] \<longrightarrow>
      ((\<exists>a b. Message err = a @ Sprintf_d (StatusError.StatusCode err) @ b) \<longrightarrow>
         Error err = Message err)
      \<and> (Message err = [] \<longrightarrow> Error err = Sprintf_d (StatusError.StatusCode err) @ '' ''))
   \<and> StatusText 599 = []
   \<and> Error \<lparr>StatusError.StatusCode = 599, Message = []\<rparr> = ''599 ''"
proof -
  have 1: "Error err = Message err"
    if "StatusText (StatusError.StatusCode err) = []"
      and "\<exists>a b. Message err = a @ Sprintf_d (StatusError.StatusCode err) @ b"
    using that unfolding Contains_iff [symmetric]
    by (simp add: Error_def Let_def Contains_empty)
  have 2: "Error err = Sprintf_d (StatusError.StatusCode err) @ '' ''"
    if "StatusText (StatusError.StatusCode err) = []" and "Message err = []"
    using that by (simp add: Error_def Let_def Sprintf_d_nonempty)
  have 3: "StatusText 599 = []" by code_simp
  have 4: "Error \<lparr>StatusError.StatusCode = 599, Message = []\<rparr> = ''599 ''" by code_simp
  from 1 2 3 4 show ?thesis by blast
qed

theorem Error_without_reason_phrase_witness:
  "Error \<lparr>StatusError.StatusCode = 599, Message = ''upstream said 599''\<rparr> = ''upstream said 599''
   \<and> Error \<lparr>StatusError.StatusCode = 599, Message = []\<rparr> = ''599 ''"
proof -
  have c: "Sprintf_d 599 = ''599''" by code_simp
  have t: "StatusText 599 = []" by code_simp
  have m: "''upstream said 599'' = ''upstream said '' @ ''599'' @ []" by simp
  from Error_without_reason_phrase [of "\<lparr>StatusError.StatusCode = 599, Message = ''upstream said 599''\<rparr>"]
  show ?thesis
    unfolding c using m c t
    by (metis StatusError.select_convs(1) StatusError.select_convs(2))
qed

section \<open>The combined check\<close>

text \<open>
  C2. \<open>Check(resp, err)\<close>: a transport error is returned unchanged, CheckStatus is not
  run and the body is not read (the only operation added to the body is the close);
  without a transport error the result of CheckStatus decides (with a nil response,
  too, which CheckStatus dereferences). When the resulting error is not nil, the body,
  if there is a response with a body, is closed and the returned response is nil; when
  it is nil, the response that was passed in is returned as it was.
\<close>

theorem Check_cases:
  fixes ext :: "'v externals" and e :: "'e error"
  shows
  "Check ext resp (Some e) = Inr (None, Some e, map_option close_Body resp)
   \<and> Check ext None (None :: 'e error option) = Inl NilPointerDereference
   \<and> (\<forall>r. Check ext (Some r) (None :: 'e error option) =
         (case CheckStatus ext r of
            Inl p \<Rightarrow> Inl p
          | Inr (None, r') \<Rightarrow> Inr (Some r, None, Some r)
          | Inr (Some e', r') \<Rightarrow> Inr (None, Some e', Some (close_Body r'))))
   \<and> (\<forall>r b. Body r = Some b \<longrightarrow> Body (close_Body r) = Some (b\<lparr>ops := ops b @ [OpClose]\<rparr>))"
proof (intro conjI allI impI)
  show "Check ext resp (Some e) = Inr (None, Some e, map_option close_Body resp)"
    by (simp add: Check_def)
next
  show "Check ext None (None :: 'e error option) = Inl NilPointerDereference"
    by (simp add: Check_def)
next
  fix r
  show "Check ext (Some r) (None :: 'e error option) =
         (case CheckStatus ext r of
            Inl p \<Rightarrow> Inl p
          | Inr (None, r') \<Rightarrow> Inr (Some r, None, Some r)
          | Inr (Some e', r') \<Rightarrow> Inr (None, Some e', Some (close_Body r')))"
  proof (cases "CheckStatus ext r :: panic + ('e error option \<times> http_Response)")
    case (Inl p)
    then show ?thesis by (simp add: Check_def)
  next
    case (Inr x)
    obtain err' r' where x: "x = (err', r')" by (cases x)
    show ?thesis
    proof (cases err')
      case None
      with Inr x have "r' = r"
        by (simp add: CheckStatus_def CheckResponse_None_iff)
      with Inr x None show ?thesis by (simp add: Check_def)
    next
      case (Some e')
      with Inr x show ?thesis by (simp add: Check_def)
    qed
  qed
next
  fix r :: http_Response and b assume "Body r = Some b"
  then show "Body (close_Body r) = Some (b\<lparr>ops := ops b @ [OpClose]\<rparr>)"
    by (simp add: close_Body_def Close_def)
qed

theorem Check_cases_witness:
  "(Check sample_ext (Some (sample_Response 500 ''text/plain'' ''boom'')) (Some (Other ''timeout''))
      :: panic + (http_Response option \<times> string error option \<times> http_Response option))
     = Inr (None, Some (Other ''timeout''),
            Some ((sample_Response 500 ''text/plain'' ''boom'')
                    \<lparr>Body := Some \<lparr>unread = ''boom'', ops = [OpClose]\<rparr>\<rparr>))
   \<and> (Check sample_ext (Some (sample_Response 200 ''text/plain'' ''fine'')) None
      :: panic + (http_Response option \<times> string error option \<times> http_Response option))
     = Inr (Some (sample_Response 200 ''text/plain'' ''fine''), None,
            Some (sample_Response 200 ''text/plain'' ''fine''))
   \<and> (Check sample_ext (Some (sample_Response 500 ''text/plain'' ''boom'')) None
      :: panic + (http_Response option \<times> string error option \<times> http_Response option))
     = Inr (None,
            Some (url_Error ''GET'' ''http://x/y'' \<lparr>StatusError.StatusCode = 500, Message = ''boom''\<rparr>),
            Some ((sample_Response 500 ''text/plain'' ''boom'')
                    \<lparr>Body := Some \<lparr>unread = [], ops = [OpRead, OpClose]\<rparr>\<rparr>))"
proof -
  have s200: "(CheckStatus sample_ext (sample_Response 200 ''text/plain'' ''fine'')
      :: panic + (string error option \<times> http_Response))
      = Inr (None, sample_Response 200 ''text/plain'' ''fine'')"
    by code_simp
  have s500: "(CheckStatus sample_ext (sample_Response 500 ''text/plain'' ''boom'')
      :: panic + (string error option \<times> http_Response))
      = Inr (Some (url_Error ''GET'' ''http://x/y'' \<lparr>StatusError.StatusCode = 500, Message = ''boom''\<rparr>),
             (sample_Response 500 ''text/plain'' ''boom'')
                    \<lparr>Body := Some \<lparr>unread = [], ops = [OpRead]\<rparr>\<rparr>)"
    by code_simp
  have c1: "close_Body (sample_Response 500 ''text/plain'' ''boom'') =
      (sample_Response 500 ''text/plain'' ''boom'')\<lparr>Body := Some \<lparr>unread = ''boom'', ops = [OpClose]\<rparr>\<rparr>"
    by code_simp
  have c2: "close_Body ((sample_Response 500 ''text/plain'' ''boom'')
                    \<lparr>Body := Some \<lparr>unread = [], ops = [OpRead]\<rparr>\<rparr>) =
      (sample_Response 500 ''text/plain'' ''boom'')\<lparr>Body := Some \<lparr>unread = [], ops = [OpRead, OpClose]\<rparr>\<rparr>"
    by code_simp
  note t = Check_cases [of sample_ext, where ?'e = string]
  from t [of "Some (sample_Response 500 ''text/plain'' ''boom'')" "Other ''timeout''"] c1
  have 1: "(Check sample_ext (Some (sample_Response 500 ''text/plain'' ''boom'')) (Some (Other ''timeout''))
      :: panic + (http_Response option \<times> string error option \<times> http_Response option))
     = Inr (None, Some (Other ''timeout''),
            Some ((sample_Response 500 ''text/plain'' ''boom'')
                    \<lparr>Body := Some \<lparr>unread = ''boom'', ops = [OpClose]\<rparr>\<rparr>))"
    by simp
  from t [of None "Other []"] s200
  have 2: "(Check sample_ext (Some (sample_Response 200 ''text/plain'' ''fine'')) None
      :: panic + (http_Response option \<times> string error option \<times> http_Response option))
     = Inr (Some (sample_Response 200 ''text/plain'' ''fine''), None,
            Some (sample_Response 200 ''text/plain'' ''fine''))"
    by simp
  from t [of None "Other []"] s500 c2
  have 3: "(Check sample_ext (Some (sample_Response 500 ''text/plain'' ''boom'')) None
      :: panic + (http_Response option \<times> string error option \<times> http_Response option))
     = Inr (None,
            Some (url_Error ''GET'' ''http://x/y'' \<lparr>StatusError.StatusCode = 500, Message = ''boom''\<rparr>),
            Some ((sample_Response 500 ''text/plain'' ''boom'')
                    \<lparr>Body := Some \<lparr>unread = [], ops = [OpRead, OpClose]\<rparr>\<rparr>))"
    by simp
  from 1 2 3 show ?thesis by blast
qed

section \<open>The allow-list classifier\<close>

text \<open>
  C9. The classifier that CheckStatusOneOf builds accepts a response exactly when its
  status code is one of the expected codes: the empty list rejects every code, and the
  order of the codes and their repetition do not matter. CheckStatusOneOf returns no
  error exactly when the status code is one of the expected codes.
\<close>

theorem CheckStatusOneOf_iff:
  fixes ext :: "'v externals"
  shows
  "(OneOf_checker expected resp \<longleftrightarrow> http_Response.StatusCode resp \<in> set expected)
   \<and> \<not> OneOf_checker [] resp
   \<and> (\<forall>other. set other = set expected \<longrightarrow>
         OneOf_checker other resp = OneOf_checker expected resp)
   \<and> ((CheckStatusOneOf ext resp expected :: panic + ('e error option \<times> http_Response))
          = Inr (None, resp)
        \<longleftrightarrow> http_Response.StatusCode resp \<in> set expected)
   \<and> (\<forall>err resp'.
         (CheckStatusOneOf ext resp expected :: panic + ('e error option \<times> http_Response))
           = Inr (err, resp') \<longrightarrow>
         (err = None \<longleftrightarrow> http_Response.StatusCode resp \<in> set expected))"
proof -
  have a: "(CheckStatusOneOf ext resp expected :: panic + ('e error option \<times> http_Response))
          = Inr (None, resp)
        \<longleftrightarrow> http_Response.StatusCode resp \<in> set expected"
    by (simp add: CheckStatusOneOf_def CheckResponse_None_iff OneOf_checker_iff)
  have b: "err = None \<longleftrightarrow> http_Response.StatusCode resp \<in> set expected"
    if "(CheckStatusOneOf ext resp expected :: panic + ('e error option \<times> http_Response))
           = Inr (err, resp')" for err resp'
  proof (cases err)
    case None
    with that show ?thesis
      by (simp add: CheckStatusOneOf_def CheckResponse_None_iff OneOf_checker_iff)
  next
    case (Some e)
    have "\<not> OneOf_checker expected resp"
    proof
      assume "OneOf_checker expected resp"
      then have "(CheckStatusOneOf ext resp expected :: panic + ('e error option \<times> http_Response))
        = Inr (None, resp)"
        by (simp add: CheckStatusOneOf_def CheckResponse_accept)
      with that Some show False by simp
    qed
    with Some show ?thesis by (simp add: OneOf_checker_iff)
  qed
  show ?thesis
    using a b by (simp add: OneOf_checker_iff)
qed

theorem CheckStatusOneOf_iff_witness:
  "OneOf_checker [404, 200, 404] (sample_Response 404 ''text/plain'' ''gone'')
   \<and> OneOf_checker [200, 404] (sample_Response 404 ''text/plain'' ''gone'')
   \<and> \<not> OneOf_checker [200, 204] (sample_Response 404 ''text/plain'' ''gone'')
   \<and> (CheckStatusOneOf sample_ext (sample_Response 404 ''text/plain'' ''gone'') [200, 404]
         :: panic + (unit error option \<times> http_Response))
        = Inr (None, sample_Response 404 ''text/plain'' ''gone'')"
proof -
  have c: "http_Response.StatusCode (sample_Response 404 ''text/plain'' ''gone'') = 404"
    by (simp add: sample_Response_def)
  have s: "set [404, 200, 404] = set [200, 404 :: int]" by auto
  note t = CheckStatusOneOf_iff [of _ "sample_Response 404 ''text/plain'' ''gone''" sample_ext,
      where ?'e = unit]
  from t [of "[200, 404]"] c s have 1: "OneOf_checker [404, 200, 404] (sample_Response 404 ''text/plain'' ''gone'')"
    by (metis list.set_intros(1))
  from t [of "[200, 404]"] c have 2: "OneOf_checker [200, 404] (sample_Response 404 ''text/plain'' ''gone'')"
    by simp
  from t [of "[200, 204]"] c have 3: "\<not> OneOf_checker [200, 204] (sample_Response 404 ''text/plain'' ''gone'')"
    by simp
  from t [of "[200, 404]"] c have 4: "(CheckStatusOneOf sample_ext (sample_Response 404 ''text/plain'' ''gone'') [200, 404]
         :: panic + (unit error option \<times> http_Response))
        = Inr (None, sample_Response 404 ''text/plain'' ''gone'')"
    by simp
  from 1 2 3 4 show ?thesis by blast
qed

lemma IndexRune_first:
  "r \<notin> set pre \<Longrightarrow> IndexRune (pre @ r # post) r = Some (length pre)"
  by (induction pre) auto

lemma IndexRune_absent: "r \<notin> set s \<Longrightarrow> IndexRune s r = None"
  by (induction s) auto

lemma extractMessage_plain:
  "vendor_mtype (parsed_mtype ext resp) = ''text/plain'' \<Longrightarrow> Body resp = Some b \<Longrightarrow>
   extractMessage ext resp =
     Inr (unread b, resp\<lparr>Body := Some (b\<lparr>unread := [], ops := ops b @ [OpRead]\<rparr>)\<rparr>)"
  by (simp add: extractMessage_def io_Copy_def)

lemma extractMessage_html:
  "vendor_mtype (parsed_mtype ext resp) = ''text/html'' \<Longrightarrow> Body resp = Some b \<Longrightarrow>
   extractMessage ext resp =
     Inr (space_ReplaceAllString
            (nlre_ReplaceAllString (TrimSpace (HTML2Text ext (unread b))) '': '') '' '',
          resp\<lparr>Body := Some (b\<lparr>unread := [], ops := ops b @ [OpRead]\<rparr>)\<rparr>)"
  by (simp add: extractMessage_def io_Copy_def)

lemma extractMessage_json:
  "vendor_mtype (parsed_mtype ext resp) = ''application/json'' \<Longrightarrow> Body resp = Some b \<Longrightarrow>
   extractMessage ext resp =
     Inr (case fst (json_Decode ext (unread b)) of
            Inl err \<Rightarrow> ''<invalid json in response body: '' @ err @ ''>''
          | Inr doc \<Rightarrow> doc_message ext doc,
          resp\<lparr>Body := Some (b\<lparr>unread := drop (snd (json_Decode ext (unread b))) (unread b),
                                ops := ops b @ [OpRead]\<rparr>)\<rparr>)"
  by (simp add: extractMessage_def Decoder_Decode_def split: sum.splits prod.splits)

lemma extractMessage_default:
  "vendor_mtype (parsed_mtype ext resp) \<noteq> ''text/plain'' \<Longrightarrow>
   vendor_mtype (parsed_mtype ext resp) \<noteq> ''text/html'' \<Longrightarrow>
   vendor_mtype (parsed_mtype ext resp) \<noteq> ''application/json'' \<Longrightarrow>
   extractMessage ext resp = Inr ([], resp)"
  by (simp add: extractMessage_def)

lemma extractMessage_nil_body:
  "vendor_mtype (parsed_mtype ext resp) \<in> {''text/plain'', ''text/html'', ''application/json''} \<Longrightarrow>
   Body resp = None \<Longrightarrow> extractMessage ext resp = Inl NilPointerDereference"
  by (auto simp: extractMessage_def)

lemma vendor_prefix_other:
  assumes "HasPrefix mtype ''application/vnd.''"
  shows "mtype \<noteq> ''text/plain''" "mtype \<noteq> ''text/html''" "mtype \<noteq> ''application/json''"
  using assms by (auto simp: HasPrefix_def)

section \<open>Vendor media types\<close>

text \<open>
  C7. A media type that begins with \<open>application/vnd.\<close> is rewritten to
  \<open>application/\<close> followed by everything after its first \<open>+\<close>, and is left as it
  is when it has no \<open>+\<close>: \<open>application/vnd.api+json\<close> becomes \<open>application/json\<close>,
  a type with several \<open>+\<close> is cut at the first one, and \<open>application/vnd.foo\<close> is
  unchanged and so falls to the default branch, where the message is empty and the body
  is not read. A response of type \<open>application/vnd.api+json\<close> is handled as JSON: the
  message is the one of the JSON branch and the body is left as the decoder leaves it.
\<close>

theorem vendor_mtype_first_plus:
  "(HasPrefix mtype ''application/vnd.'' \<longrightarrow>
      (\<forall>pre post. mtype = pre @ CHR ''+'' # post \<and> CHR ''+'' \<notin> set pre \<longrightarrow>
          vendor_mtype mtype = ''application/'' @ post)
      \<and> (CHR ''+'' \<notin> set mtype \<longrightarrow> vendor_mtype mtype = mtype))
   \<and> vendor_mtype ''application/vnd.api+json'' = ''application/json''
   \<and> vendor_mtype ''application/vnd.a+b+json'' = ''application/b+json''
   \<and> vendor_mtype ''application/vnd.foo'' = ''application/vnd.foo''
   \<and> (HasPrefix (parsed_mtype ext resp) ''application/vnd.''
        \<and> CHR ''+'' \<notin> set (parsed_mtype ext resp) \<longrightarrow>
       extractMessage ext resp = Inr ([], resp))
   \<and> (\<forall>b. parsed_mtype ext resp = ''application/vnd.api+json'' \<and> Body resp = Some b \<longrightarrow>
       extractMessage ext resp =
         Inr (case fst (json_Decode ext (unread b)) of
                Inl err \<Rightarrow> ''<invalid json in response body: '' @ err @ ''>''
              | Inr doc \<Rightarrow> doc_message ext doc,
              resp\<lparr>Body := Some (b\<lparr>unread := drop (snd (json_Decode ext (unread b))) (unread b),
                                    ops := ops b @ [OpRead]\<rparr>)\<rparr>))"
proof -
  have 1: "vendor_mtype mtype = ''application/'' @ post"
    if "HasPrefix mtype ''application/vnd.''" "mtype = pre @ CHR ''+'' # post" "CHR ''+'' \<notin> set pre"
    for pre post
    using that by (simp add: vendor_mtype_def IndexRune_first)
  have 2: "vendor_mtype mtype = mtype" if "CHR ''+'' \<notin> set mtype" for mtype
    using that by (simp add: vendor_mtype_def IndexRune_absent)
  have 3: "vendor_mtype ''application/vnd.api+json'' = ''application/json''" by code_simp
  have 4: "vendor_mtype ''application/vnd.a+b+json'' = ''application/b+json''" by code_simp
  have 5: "vendor_mtype ''application/vnd.foo'' = ''application/vnd.foo''" by code_simp
  have 6: "extractMessage ext resp = Inr ([], resp)"
    if "HasPrefix (parsed_mtype ext resp) ''application/vnd.''"
       "CHR ''+'' \<notin> set (parsed_mtype ext resp)"
    using that vendor_prefix_other [OF that(1)] 2 [OF that(2)]
    by (simp add: extractMessage_default)
  have 7: "extractMessage ext resp =
         Inr (case fst (json_Decode ext (unread b)) of
                Inl err \<Rightarrow> ''<invalid json in response body: '' @ err @ ''>''
              | Inr doc \<Rightarrow> doc_message ext doc,
              resp\<lparr>Body := Some (b\<lparr>unread := drop (snd (json_Decode ext (unread b))) (unread b),
                                    ops := ops b @ [OpRead]\<rparr>)\<rparr>)"
    if "parsed_mtype ext resp = ''application/vnd.api+json''" "Body resp = Some b" for b
    using that 3 by (simp add: extractMessage_json)
  from 1 2 3 4 5 6 7 show ?thesis by blast
qed

theorem vendor_mtype_first_plus_witness:
  "extractMessage sample_ext (sample_Response 500 ''application/vnd.foo'' ''boom'')
     = Inr ([], sample_Response 500 ''application/vnd.foo'' ''boom'')
   \<and> vendor_mtype ''application/vnd.a+b+json'' = ''application/b+json''"
proof -
  have p: "parsed_mtype sample_ext (sample_Response 500 ''application/vnd.foo'' ''boom'')
             = ''application/vnd.foo''"
    by code_simp
  have h: "HasPrefix ''application/vnd.foo'' ''application/vnd.''" by code_simp
  have n: "CHR ''+'' \<notin> set ''application/vnd.foo''" by simp
  have h': "HasPrefix ''application/vnd.a+b+json'' ''application/vnd.''" by code_simp
  have d: "''application/vnd.a+b+json'' = ''application/vnd.a'' @ CHR ''+'' # ''b+json''
           \<and> CHR ''+'' \<notin> set ''application/vnd.a''"
    by simp
  note t = vendor_mtype_first_plus
         [of "''application/vnd.a+b+json''" sample_ext
             "sample_Response 500 ''application/vnd.foo'' ''boom''"]
  from t p h n
  have 1: "extractMessage sample_ext (sample_Response 500 ''application/vnd.foo'' ''boom'')
     = Inr ([], sample_Response 500 ''application/vnd.foo'' ''boom'')"
    by simp
  from t h' have "\<forall>pre post. ''application/vnd.a+b+json'' = pre @ CHR ''+'' # post
      \<and> CHR ''+'' \<notin> set pre \<longrightarrow>
          vendor_mtype ''application/vnd.a+b+json'' = ''application/'' @ post"
    by blast
  with d have "vendor_mtype ''application/vnd.a+b+json'' = ''application/'' @ ''b+json''"
    by blast
  with 1 show ?thesis by simp
qed

lemma parsed_mtype_absent:
  "fmlookup (Header resp) ''Content-Type'' = None \<Longrightarrow> parsed_mtype ext resp = ''text/plain''"
  by (simp add: parsed_mtype_def Header_Get_def ParseMediaType_def)

lemma parsed_mtype_unparseable:
  "ParseMediaType ext (Header_Get (Header resp) ''Content-Type'') = Inl e \<Longrightarrow>
   parsed_mtype ext resp = ''text/plain''"
  by (simp add: parsed_mtype_def)

lemma vendor_mtype_plain: "vendor_mtype ''text/plain'' = ''text/plain''"
  by code_simp

section \<open>Plain text\<close>

text \<open>
  C8. When the Content-Type header is absent or does not parse, the media type is
  \<open>text/plain\<close>; and for a response handled as \<open>text/plain\<close> the message is the whole
  body, byte for byte, so the empty body gives the empty message. (The body is read, so
  there has to be one: the http client always provides it.)
\<close>

theorem extractMessage_text_plain:
  "((fmlookup (Header resp) ''Content-Type'' = None
      \<or> (\<exists>e. ParseMediaType ext (Header_Get (Header resp) ''Content-Type'') = Inl e)) \<longrightarrow>
      vendor_mtype (parsed_mtype ext resp) = ''text/plain'')
   \<and> (vendor_mtype (parsed_mtype ext resp) = ''text/plain'' \<and> Body resp = Some b \<longrightarrow>
        extractMessage ext resp =
          Inr (unread b, resp\<lparr>Body := Some (b\<lparr>unread := [], ops := ops b @ [OpRead]\<rparr>)\<rparr>))
   \<and> (vendor_mtype (parsed_mtype ext resp) = ''text/plain'' \<and> Body resp = Some b
        \<and> unread b = [] \<longrightarrow>
        (\<exists>resp'. extractMessage ext resp = Inr ([], resp')))"
proof -
  have 1: "vendor_mtype (parsed_mtype ext resp) = ''text/plain''"
    if "fmlookup (Header resp) ''Content-Type'' = None
      \<or> (\<exists>e. ParseMediaType ext (Header_Get (Header resp) ''Content-Type'') = Inl e)"
    using that by (auto simp: parsed_mtype_absent parsed_mtype_unparseable vendor_mtype_plain)
  have 2: "extractMessage ext resp =
          Inr (unread b, resp\<lparr>Body := Some (b\<lparr>unread := [], ops := ops b @ [OpRead]\<rparr>)\<rparr>)"
    if "vendor_mtype (parsed_mtype ext resp) = ''text/plain''" "Body resp = Some b"
    using that by (rule extractMessage_plain)
  have 3: "\<exists>resp'. extractMessage ext resp = Inr ([], resp')"
    if "vendor_mtype (parsed_mtype ext resp) = ''text/plain''" "Body resp = Some b" "unread b = []"
    using 2 [OF that(1,2)] that(3) by simp
  from 1 2 3 show ?thesis by blast
qed

lemma sort_range_keys:
  assumes "range_ok ext doc"
  shows "sort (range_keys ext doc) = sorted_list_of_fset (fmdom doc)"
proof -
  from assms have d: "distinct (range_keys ext doc)"
    and s: "fset (fmdom doc) = set (range_keys ext doc)"
    by (auto simp: range_ok_def fset_of_list.rep_eq [symmetric])
  have "sorted_list_of_fset (fmdom doc) = sorted_list_of_set (set (range_keys ext doc))"
    by (simp add: sorted_list_of_fset.rep_eq s)
  also have "\<dots> = sort (remdups (range_keys ext doc))"
    by (rule sorted_list_of_set_sort_remdups)
  also have "\<dots> = sort (range_keys ext doc)"
    using d by (simp add: distinct_remdups_id)
  finally show ?thesis by simp
qed

lemma doc_message_sorted:
  "range_ok ext doc \<Longrightarrow>
   doc_message ext doc = Join (map (doc_field ext doc) (sorted_list_of_fset (fmdom doc))) '', ''"
  by (simp add: doc_message_def Let_def sort_range_keys)

lemma keys_foo_baz: "sorted_list_of_fset {|''foo'', ''baz''|} = [''baz'', ''foo'']"
  by code_simp

lemma doc_field_Some:
  "fmlookup doc k = Some v \<Longrightarrow> doc_field ext doc k = k @ '': '' @ Sprintf_v ext v"
  by (simp add: doc_field_def)

theorem extractMessage_text_plain_witness:
  "extractMessage sample_ext ((sample_Response 500 [] ''  boom '')\<lparr>Header := fmempty\<rparr>)
     = Inr (''  boom '',
            (sample_Response 500 [] ''  boom '')
              \<lparr>Header := fmempty, Body := Some \<lparr>unread = [], ops = [OpRead]\<rparr>\<rparr>)
   \<and> extractMessage sample_ext (sample_Response 500 ''/plain'' [])
     = Inr ([], (sample_Response 500 ''/plain'' [])
              \<lparr>Body := Some \<lparr>unread = [], ops = [OpRead]\<rparr>\<rparr>)"
proof -
  define r1 where "r1 = (sample_Response 500 [] ''  boom '')\<lparr>Header := fmempty\<rparr>"
  define r2 where "r2 = sample_Response 500 ''/plain'' []"
  have a1: "fmlookup (Header r1) ''Content-Type'' = None"
    by (simp add: r1_def)
  have b1: "Body r1 = Some (sample_Body ''  boom '')"
    by (simp add: r1_def sample_Response_def)
  have a2: "ParseMediaType sample_ext (Header_Get (Header r2) ''Content-Type'')
      = Inl ''mime: no media type''"
    unfolding r2_def by code_simp
  have b2: "Body r2 = Some (sample_Body [])"
    by (simp add: r2_def sample_Response_def)
  from extractMessage_text_plain [of r1 sample_ext "sample_Body ''  boom ''"] a1 b1
  have "extractMessage sample_ext r1 =
      Inr (unread (sample_Body ''  boom ''),
           r1\<lparr>Body := Some ((sample_Body ''  boom '')
                  \<lparr>unread := [], ops := ops (sample_Body ''  boom '') @ [OpRead]\<rparr>)\<rparr>)"
    by blast
  then have 1: "extractMessage sample_ext r1 =
      Inr (''  boom '', r1\<lparr>Body := Some \<lparr>unread = [], ops = [OpRead]\<rparr>\<rparr>)"
    by (simp add: sample_Body_def)
  from extractMessage_text_plain [of r2 sample_ext "sample_Body []"] a2 b2
  have "extractMessage sample_ext r2 =
      Inr (unread (sample_Body []),
           r2\<lparr>Body := Some ((sample_Body [])
                  \<lparr>unread := [], ops := ops (sample_Body []) @ [OpRead]\<rparr>)\<rparr>)"
    by blast
  then have 2: "extractMessage sample_ext r2 =
      Inr ([], r2\<lparr>Body := Some \<lparr>unread = [], ops = [OpRead]\<rparr>\<rparr>)"
    by (simp add: sample_Body_def)
  from 1 2 show ?thesis unfolding r1_def r2_def by simp
qed

section \<open>JSON bodies\<close>

text \<open>
  C4. For a response whose media type is \<open>application/json\<close> and whose body decodes
  to a map, the message is made of the keys of the map in ascending order (the order
  \<open>\<le>\<close> on strings is the lexicographic order of their bytes), each rendered as
  \<open>key: value\<close>, joined with a comma and a space, whatever the order in which the range
  loop visited the keys. The map with \<open>foo\<close> and \<open>baz\<close> gives \<open>baz: \<dots>, foo: \<dots>\<close>,
  the empty map gives the empty message. The body has been read once, and what the
  decoder has not taken from the stream (\<open>n\<close> is the number of bytes it has taken) is
  still unread.
\<close>

theorem extractMessage_json_sorted:
  "(vendor_mtype (parsed_mtype ext resp) = ''application/json'' \<and> Body resp = Some b
      \<and> json_Decode ext (unread b) = (Inr doc, n) \<longrightarrow>
      extractMessage ext resp =
        Inr (doc_message ext doc,
             resp\<lparr>Body := Some (b\<lparr>unread := drop n (unread b), ops := ops b @ [OpRead]\<rparr>)\<rparr>))
   \<and> (range_ok ext doc \<longrightarrow>
        doc_message ext doc =
          Join (map (doc_field ext doc) (sorted_list_of_fset (fmdom doc))) '', ''
        \<and> sorted (sorted_list_of_fset (fmdom doc))
        \<and> distinct (sorted_list_of_fset (fmdom doc))
        \<and> set (sorted_list_of_fset (fmdom doc)) = fset (fmdom doc))
   \<and> (\<forall>k v. fmlookup doc k = Some v \<longrightarrow> doc_field ext doc k = k @ '': '' @ Sprintf_v ext v)
   \<and> (\<forall>x y. range_ok ext (fmap_of_list [(''foo'', x), (''baz'', y)]) \<longrightarrow>
         doc_message ext (fmap_of_list [(''foo'', x), (''baz'', y)]) =
           ''baz: '' @ Sprintf_v ext y @ '', foo: '' @ Sprintf_v ext x)
   \<and> (range_ok ext fmempty \<longrightarrow> doc_message ext fmempty = [])"
proof -
  have 1: "extractMessage ext resp =
        Inr (doc_message ext doc,
             resp\<lparr>Body := Some (b\<lparr>unread := drop n (unread b), ops := ops b @ [OpRead]\<rparr>)\<rparr>)"
    if "vendor_mtype (parsed_mtype ext resp) = ''application/json''" "Body resp = Some b"
       "json_Decode ext (unread b) = (Inr doc, n)"
    using that by (simp add: extractMessage_json)
  have 2: "sorted (sorted_list_of_fset (fmdom doc))
        \<and> distinct (sorted_list_of_fset (fmdom doc))
        \<and> set (sorted_list_of_fset (fmdom doc)) = fset (fmdom doc)"
    by (simp add: sorted_list_of_fset.rep_eq)
  have 4: "doc_message ext (fmap_of_list [(''foo'', x), (''baz'', y)]) =
           ''baz: '' @ Sprintf_v ext y @ '', foo: '' @ Sprintf_v ext x"
    if "range_ok ext (fmap_of_list [(''foo'', x), (''baz'', y)])" for x y
  proof -
    define D where "D = fmap_of_list [(''foo'', x), (''baz'', y)]"
    have "fmdom D = {|''foo'', ''baz''|}"
      by (simp add: D_def fmdom_of_list)
    then have k: "sorted_list_of_fset (fmdom D) = [''baz'', ''foo'']"
      by (simp add: keys_foo_baz)
    have f: "doc_field ext D ''baz'' = ''baz: '' @ Sprintf_v ext y"
      "doc_field ext D ''foo'' = ''foo: '' @ Sprintf_v ext x"
      by (simp_all add: D_def doc_field_def)
    from that have "range_ok ext D" by (simp only: D_def)
    then have "doc_message ext D = Join (map (doc_field ext D) [''baz'', ''foo'']) '', ''"
      by (simp only: doc_message_sorted k)
    then have "doc_message ext D = ''baz: '' @ Sprintf_v ext y @ '', foo: '' @ Sprintf_v ext x"
      by (simp add: f)
    then show ?thesis by (simp only: D_def)
  qed
  have 5: "doc_message ext fmempty = []" if "range_ok ext fmempty"
    by (simp add: doc_message_sorted [OF that] sorted_list_of_fset.rep_eq)
  from 1 2 4 5 doc_message_sorted [of ext doc] doc_field_Some [of doc _ _ ext]
  show ?thesis by blast
qed

theorem extractMessage_json_sorted_witness:
  "extractMessage sample_ext
     (sample_Response 500 ''application/json'' ''{\"foo\": \"bar\", \"baz\": \"quux\"}'')
     = Inr (''baz: quux, foo: bar'',
            (sample_Response 500 ''application/json'' ''{\"foo\": \"bar\", \"baz\": \"quux\"}'')
              \<lparr>Body := Some \<lparr>unread = [], ops = [OpRead]\<rparr>\<rparr>)
   \<and> extractMessage sample_ext (sample_Response 500 ''application/json'' ''{}'')
     = Inr ([], (sample_Response 500 ''application/json'' ''{}'')
              \<lparr>Body := Some \<lparr>unread = [], ops = [OpRead]\<rparr>\<rparr>)"
proof -
  define data where "data = ''{\"foo\": \"bar\", \"baz\": \"quux\"}''"
  define doc :: "(string, string) fmap"
    where "doc = fmap_of_list [(''foo'', ''bar''), (''baz'', ''quux'')]"
  have h1: "vendor_mtype (parsed_mtype sample_ext (sample_Response 500 ''application/json'' data))
      = ''application/json''"
    unfolding data_def by code_simp
  have h2: "Body (sample_Response 500 ''application/json'' data) = Some (sample_Body data)"
    by (simp add: sample_Response_def)
  have h3: "json_Decode sample_ext (unread (sample_Body data)) = (Inr doc, length data)"
    unfolding data_def doc_def by code_simp
  have h4: "range_ok sample_ext doc"
    unfolding doc_def by code_simp
  have v: "Sprintf_v sample_ext x = x" for x
    by (simp add: sample_ext_def)
  note t = extractMessage_json_sorted
    [of sample_ext "sample_Response 500 ''application/json'' data" "sample_Body data" doc "length data"]
  from t h1 h2 h3 have "extractMessage sample_ext (sample_Response 500 ''application/json'' data)
     = Inr (doc_message sample_ext doc,
            (sample_Response 500 ''application/json'' data)
              \<lparr>Body := Some ((sample_Body data)\<lparr>unread := drop (length data) (unread (sample_Body data)), ops := ops (sample_Body data) @ [OpRead]\<rparr>)\<rparr>)"
    by blast
  moreover from t h4 have "doc_message sample_ext doc =
      ''baz: '' @ Sprintf_v sample_ext ''quux'' @ '', foo: '' @ Sprintf_v sample_ext ''bar''"
    unfolding doc_def by blast
  ultimately have 1: "extractMessage sample_ext (sample_Response 500 ''application/json'' data)
     = Inr (''baz: quux, foo: bar'',
            (sample_Response 500 ''application/json'' data)
              \<lparr>Body := Some \<lparr>unread = [], ops = [OpRead]\<rparr>\<rparr>)"
    by (simp add: v sample_Body_def)
  have e1: "vendor_mtype (parsed_mtype sample_ext (sample_Response 500 ''application/json'' ''{}''))
      = ''application/json''"
    by code_simp
  have e2: "Body (sample_Response 500 ''application/json'' ''{}'') = Some (sample_Body ''{}'')"
    by (simp add: sample_Response_def)
  have e3: "json_Decode sample_ext (unread (sample_Body ''{}'')) = (Inr fmempty, length ''{}'')"
    by code_simp
  have e4: "range_ok sample_ext fmempty"
    by code_simp
  note u = extractMessage_json_sorted
    [of sample_ext "sample_Response 500 ''application/json'' ''{}''" "sample_Body ''{}''" fmempty "length ''{}''"]
  from u e1 e2 e3 have "extractMessage sample_ext (sample_Response 500 ''application/json'' ''{}'')
     = Inr (doc_message sample_ext fmempty,
            (sample_Response 500 ''application/json'' ''{}'')
              \<lparr>Body := Some ((sample_Body ''{}'')\<lparr>unread := drop (length ''{}'') (unread (sample_Body ''{}'')), ops := ops (sample_Body ''{}'') @ [OpRead]\<rparr>)\<rparr>)"
    by blast
  moreover from u e4 have "doc_message sample_ext fmempty = []" by blast
  ultimately have 2: "extractMessage sample_ext (sample_Response 500 ''application/json'' ''{}'')
     = Inr ([], (sample_Response 500 ''application/json'' ''{}'')
              \<lparr>Body := Some \<lparr>unread = [], ops = [OpRead]\<rparr>\<rparr>)"
    by (simp add: sample_Body_def)
  from 1 2 show ?thesis unfolding data_def by blast
qed

text \<open>
  C5. For a response whose media type is \<open>application/json\<close> and whose body the
  decoder rejects with the error \<open>e\<close>, the message is
  \<open><invalid json in response body: e>\<close>, which starts with
  \<open><invalid json in response body:\<close>; and the check returns the same kind of error as
  for any rejected response, a \<open>url.Error\<close> around the StatusError with that message.
  The decoder has taken \<open>n\<close> bytes from the stream when it fails; the rest of the
  body is still unread.
\<close>

theorem extractMessage_invalid_json:
  "vendor_mtype (parsed_mtype ext resp) = ''application/json'' \<and> Body resp = Some b
     \<and> json_Decode ext (unread b) = (Inl e, n) \<longrightarrow>
   extractMessage ext resp =
     Inr (''<invalid json in response body: '' @ e @ ''>'',
          resp\<lparr>Body := Some (b\<lparr>unread := drop n (unread b), ops := ops b @ [OpRead]\<rparr>)\<rparr>)
   \<and> HasPrefix (''<invalid json in response body: '' @ e @ ''>'')
        ''<invalid json in response body:''
   \<and> (\<not> checker resp \<and> Request resp = None \<longrightarrow>
        (CheckResponse ext resp checker :: panic + ('e error option \<times> http_Response)) =
          Inr (Some (url_Error ''<unknown method>'' ''<unknown request>''
                       \<lparr>StatusError.StatusCode = http_Response.StatusCode resp,
                         Message = ''<invalid json in response body: '' @ e @ ''>''\<rparr>),
               resp\<lparr>Body := Some (b\<lparr>unread := drop n (unread b), ops := ops b @ [OpRead]\<rparr>)\<rparr>))
   \<and> (\<forall>req u. \<not> checker resp \<and> Request resp = Some req \<and> URL req = Some u \<longrightarrow>
        (CheckResponse ext resp checker :: panic + ('e error option \<times> http_Response)) =
          Inr (Some (url_Error (Method req) u
                       \<lparr>StatusError.StatusCode = http_Response.StatusCode resp,
                         Message = ''<invalid json in response body: '' @ e @ ''>''\<rparr>),
               resp\<lparr>Body := Some (b\<lparr>unread := drop n (unread b), ops := ops b @ [OpRead]\<rparr>)\<rparr>))"
proof (intro impI, elim conjE)
  assume h: "vendor_mtype (parsed_mtype ext resp) = ''application/json''" "Body resp = Some b"
    "json_Decode ext (unread b) = (Inl e, n)"
  then have 1: "extractMessage ext resp =
     Inr (''<invalid json in response body: '' @ e @ ''>'',
          resp\<lparr>Body := Some (b\<lparr>unread := drop n (unread b), ops := ops b @ [OpRead]\<rparr>)\<rparr>)"
    by (simp add: extractMessage_json)
  have 2: "HasPrefix (''<invalid json in response body: '' @ e @ ''>'')
        ''<invalid json in response body:''"
    by (simp add: HasPrefix_def)
  have 3: "(CheckResponse ext resp checker :: panic + ('e error option \<times> http_Response)) =
          Inr (Some (url_Error ''<unknown method>'' ''<unknown request>''
                       \<lparr>StatusError.StatusCode = http_Response.StatusCode resp,
                         Message = ''<invalid json in response body: '' @ e @ ''>''\<rparr>),
               resp\<lparr>Body := Some (b\<lparr>unread := drop n (unread b), ops := ops b @ [OpRead]\<rparr>)\<rparr>)"
    if "\<not> checker resp" "Request resp = None"
    using that 1 by (simp add: CheckResponse_reject)
  have 4: "(CheckResponse ext resp checker :: panic + ('e error option \<times> http_Response)) =
          Inr (Some (url_Error (Method req) u
                       \<lparr>StatusError.StatusCode = http_Response.StatusCode resp,
                         Message = ''<invalid json in response body: '' @ e @ ''>''\<rparr>),
               resp\<lparr>Body := Some (b\<lparr>unread := drop n (unread b), ops := ops b @ [OpRead]\<rparr>)\<rparr>)"
    if "\<not> checker resp" "Request resp = Some req" "URL req = Some u" for req u
    using that 1 by (simp add: CheckResponse_reject)
  from 1 2 3 4 show "extractMessage ext resp =
     Inr (''<invalid json in response body: '' @ e @ ''>'',
          resp\<lparr>Body := Some (b\<lparr>unread := drop n (unread b), ops := ops b @ [OpRead]\<rparr>)\<rparr>)
   \<and> HasPrefix (''<invalid json in response body: '' @ e @ ''>'')
        ''<invalid json in response body:''
   \<and> (\<not> checker resp \<and> Request resp = None \<longrightarrow>
        (CheckResponse ext resp checker :: panic + ('e error option \<times> http_Response)) =
          Inr (Some (url_Error ''<unknown method>'' ''<unknown request>''
                       \<lparr>StatusError.StatusCode = http_Response.StatusCode resp,
                         Message = ''<invalid json in response body: '' @ e @ ''>''\<rparr>),
               resp\<lparr>Body := Some (b\<lparr>unread := drop n (unread b), ops := ops b @ [OpRead]\<rparr>)\<rparr>))
   \<and> (\<forall>req u. \<not> checker resp \<and> Request resp = Some req \<and> URL req = Some u \<longrightarrow>
        (CheckResponse ext resp checker :: panic + ('e error option \<times> http_Response)) =
          Inr (Some (url_Error (Method req) u
                       \<lparr>StatusError.StatusCode = http_Response.StatusCode resp,
                         Message = ''<invalid json in response body: '' @ e @ ''>''\<rparr>),
               resp\<lparr>Body := Some (b\<lparr>unread := drop n (unread b), ops := ops b @ [OpRead]\<rparr>)\<rparr>))"
    by blast
qed

theorem extractMessage_invalid_json_witness:
  "extractMessage sample_ext (sample_Response 500 ''application/json'' ''{\"foo\": \"bar\", \"baz\"'')
     = Inr (''<invalid json in response body: unexpected EOF>'',
            (sample_Response 500 ''application/json'' ''{\"foo\": \"bar\", \"baz\"'')
              \<lparr>Body := Some \<lparr>unread = [], ops = [OpRead]\<rparr>\<rparr>)
   \<and> (CheckStatus sample_ext (sample_Response 500 ''application/json'' ''{\"foo\": \"bar\", \"baz\"'')
        :: panic + (unit error option \<times> http_Response))
     = Inr (Some (url_Error ''GET'' ''http://x/y''
                    \<lparr>StatusError.StatusCode = 500,
                      Message = ''<invalid json in response body: unexpected EOF>''\<rparr>),
            (sample_Response 500 ''application/json'' ''{\"foo\": \"bar\", \"baz\"'')
              \<lparr>Body := Some \<lparr>unread = [], ops = [OpRead]\<rparr>\<rparr>)"
proof -
  define data where "data = ''{\"foo\": \"bar\", \"baz\"''"
  define r where "r = sample_Response 500 ''application/json'' data"
  have h1: "vendor_mtype (parsed_mtype sample_ext r) = ''application/json''"
    unfolding r_def data_def by code_simp
  have h2: "Body r = Some (sample_Body data)"
    by (simp add: r_def sample_Response_def)
  have h3: "json_Decode sample_ext (unread (sample_Body data)) = (Inl ''unexpected EOF'', length data)"
    unfolding data_def by code_simp
  have h4: "\<not> DefaultResponseChecker r"
    by (simp add: r_def sample_Response_def DefaultResponseChecker_def)
  have h5: "Request r = Some \<lparr>Method = ''GET'', URL = Some ''http://x/y''\<rparr>"
    by (simp add: r_def sample_Response_def)
  have h6: "http_Response.StatusCode r = 500"
    by (simp add: r_def sample_Response_def)
  note t = extractMessage_invalid_json
    [of sample_ext r "sample_Body data" "''unexpected EOF''" "length data" DefaultResponseChecker,
     where ?'e = unit]
  from t h1 h2 h3 have 1: "extractMessage sample_ext r =
     Inr (''<invalid json in response body: '' @ ''unexpected EOF'' @ ''>'',
          r\<lparr>Body := Some ((sample_Body data)\<lparr>unread := drop (length data) (unread (sample_Body data)), ops := ops (sample_Body data) @ [OpRead]\<rparr>)\<rparr>)"
    by blast
  from t h1 h2 h3 h4 h5 have 2:
    "(CheckResponse sample_ext r DefaultResponseChecker :: panic + (unit error option \<times> http_Response)) =
          Inr (Some (url_Error (Method \<lparr>Method = ''GET'', URL = Some ''http://x/y''\<rparr>) ''http://x/y''
                       \<lparr>StatusError.StatusCode = http_Response.StatusCode r,
                         Message = ''<invalid json in response body: '' @ ''unexpected EOF'' @ ''>''\<rparr>),
               r\<lparr>Body := Some ((sample_Body data)\<lparr>unread := drop (length data) (unread (sample_Body data)), ops := ops (sample_Body data) @ [OpRead]\<rparr>)\<rparr>)"
    by (metis http_Request.select_convs(2))
  from 1 2 h6 show ?thesis
    unfolding r_def [symmetric] data_def [symmetric]
    by (simp add: CheckStatus_def sample_Body_def)
qed

lemma extractMessage_ops:
  assumes "extractMessage ext resp = Inr (msg, resp')"
  shows "body_ops resp' = body_ops resp \<or> body_ops resp' = body_ops resp @ [OpRead]"
  using assms
  by (auto simp: extractMessage_def Let_def io_Copy_def Decoder_Decode_def body_ops_def
           split: if_splits option.splits sum.splits prod.splits)

lemma extractMessage_total:
  "Body resp \<noteq> None \<Longrightarrow> \<exists>msg resp'. extractMessage ext resp = Inr (msg, resp')"
  by (auto simp: extractMessage_def Let_def io_Copy_def Decoder_Decode_def
           split: sum.splits prod.splits)

lemma extractMessage_keeps_body:
  assumes "extractMessage ext resp = Inr (msg, resp')" "Body resp = Some b"
  shows "\<exists>b'. Body resp' = Some b'"
  using assms
  by (auto simp: extractMessage_def Let_def io_Copy_def Decoder_Decode_def
           split: if_splits sum.splits prod.splits)

lemma body_ops_close_Body:
  "Body r = Some b \<Longrightarrow> body_ops (close_Body r) = body_ops r @ [OpClose]"
  by (simp add: body_ops_def close_Body_def Close_def)

section \<open>CheckResponse and the body\<close>

text \<open>
  C3, as stated: CheckResponse closes the body of a response that the checker rejects.
  It does not: for the sample response with status 500 and the body \<open>boom\<close> the body
  has been read and not closed when CheckResponse returns.
\<close>

theorem CheckResponse_closes_body_counterexample:
  "\<not> DefaultResponseChecker (sample_Response 500 ''text/plain'' ''boom'')
   \<and> (CheckResponse sample_ext (sample_Response 500 ''text/plain'' ''boom'') DefaultResponseChecker
        :: panic + (unit error option \<times> http_Response))
     = Inr (Some (url_Error ''GET'' ''http://x/y''
                    \<lparr>StatusError.StatusCode = 500, Message = ''boom''\<rparr>),
            (sample_Response 500 ''text/plain'' ''boom'')
              \<lparr>Body := Some \<lparr>unread = [], ops = [OpRead]\<rparr>\<rparr>)
   \<and> OpClose \<notin> set (body_ops ((sample_Response 500 ''text/plain'' ''boom'')
              \<lparr>Body := Some \<lparr>unread = [], ops = [OpRead]\<rparr>\<rparr>))"
  by code_simp

text \<open>
  C3, amended. For a response that the checker rejects, CheckResponse returns an error
  that is not nil and leaves the body open: the only thing it may have done to the body
  is one read, by extractMessage. It does return (it does not panic) when the response
  has a body and its request, if there is one, has a URL. The body is closed by
  \<open>Check\<close>, after CheckStatus has returned its error: the operations on the body are
  then at most one read, followed by the close.
\<close>

theorem CheckResponse_leaves_body_open:
  fixes ext :: "'v externals"
  shows
  "(\<not> checker resp \<longrightarrow>
     (\<forall>err resp'.
        (CheckResponse ext resp checker :: panic + ('e error option \<times> http_Response))
          = Inr (err, resp') \<longrightarrow>
        err \<noteq> None
        \<and> (body_ops resp' = body_ops resp \<or> body_ops resp' = body_ops resp @ [OpRead]))
     \<and> (Body resp \<noteq> None \<and> (\<forall>req. Request resp = Some req \<longrightarrow> URL req \<noteq> None) \<longrightarrow>
         (\<exists>e resp'.
            (CheckResponse ext resp checker :: panic + ('e error option \<times> http_Response))
              = Inr (Some e, resp'))))
   \<and> (\<not> DefaultResponseChecker resp \<and> Body resp \<noteq> None
        \<and> (\<forall>req. Request resp = Some req \<longrightarrow> URL req \<noteq> None) \<longrightarrow>
       (\<exists>e resp'.
          (Check ext (Some resp) None
             :: panic + (http_Response option \<times> 'e error option \<times> http_Response option))
            = Inr (None, Some e, Some resp')
          \<and> (body_ops resp' = body_ops resp @ [OpClose]
               \<or> body_ops resp' = body_ops resp @ [OpRead, OpClose])))"
proof -
  have 1: "err \<noteq> None
        \<and> (body_ops resp' = body_ops resp \<or> body_ops resp' = body_ops resp @ [OpRead])
        \<and> (Body resp \<noteq> None \<longrightarrow> Body resp' \<noteq> None)"
    if rej: "\<not> checker resp"
      and res: "(CheckResponse ext resp checker :: panic + ('e error option \<times> http_Response))
          = Inr (err, resp')"
    for err resp' and checker :: ResponseChecker
  proof -
    from rej res obtain msg where m: "extractMessage ext resp = Inr (msg, resp')"
      and "err \<noteq> None"
      by (auto simp: CheckResponse_reject split: sum.splits option.splits)
    with extractMessage_ops [OF m] extractMessage_keeps_body [OF m] show ?thesis by auto
  qed
  have 2: "\<exists>e resp'.
            (CheckResponse ext resp checker :: panic + ('e error option \<times> http_Response))
              = Inr (Some e, resp')"
    if rej: "\<not> checker resp"
      and ok: "Body resp \<noteq> None \<and> (\<forall>req. Request resp = Some req \<longrightarrow> URL req \<noteq> None)"
    for checker :: ResponseChecker
  proof -
    from ok obtain msg resp' where m: "extractMessage ext resp = Inr (msg, resp')"
      using extractMessage_total by blast
    show ?thesis
    proof (cases "Request resp")
      case None
      with rej m show ?thesis by (simp add: CheckResponse_reject)
    next
      case (Some rq)
      with ok obtain u where "URL rq = Some u" by auto
      with Some rej m show ?thesis by (simp add: CheckResponse_reject)
    qed
  qed
  have 3: "\<exists>e resp'.
          (Check ext (Some resp) None
             :: panic + (http_Response option \<times> 'e error option \<times> http_Response option))
            = Inr (None, Some e, Some resp')
          \<and> (body_ops resp' = body_ops resp @ [OpClose]
               \<or> body_ops resp' = body_ops resp @ [OpRead, OpClose])"
    if rej: "\<not> DefaultResponseChecker resp"
      and ok: "Body resp \<noteq> None \<and> (\<forall>req. Request resp = Some req \<longrightarrow> URL req \<noteq> None)"
  proof -
    from 2 [of DefaultResponseChecker, OF rej ok] obtain e :: "'e error" and r1
      where c: "CheckResponse ext resp DefaultResponseChecker = Inr (Some e, r1)"
      by blast
    from 1 [of DefaultResponseChecker, OF rej c] ok obtain b1 where b1: "Body r1 = Some b1"
      and o: "body_ops r1 = body_ops resp \<or> body_ops r1 = body_ops resp @ [OpRead]"
      by auto
    from c have "(Check ext (Some resp) None
             :: panic + (http_Response option \<times> 'e error option \<times> http_Response option))
        = Inr (None, Some e, Some (close_Body r1))"
      by (simp add: Check_def CheckStatus_def)
    moreover from o body_ops_close_Body [OF b1]
    have "body_ops (close_Body r1) = body_ops resp @ [OpClose]
        \<or> body_ops (close_Body r1) = body_ops resp @ [OpRead, OpClose]"
      by auto
    ultimately show ?thesis by blast
  qed
  from 1 2 3 show ?thesis by blast
qed

theorem CheckResponse_leaves_body_open_witness:
  "Some (url_Error ''GET'' ''http://x/y'' \<lparr>StatusError.StatusCode = 500, Message = ''boom''\<rparr>
          :: unit error) \<noteq> None
   \<and> (body_ops ((sample_Response 500 ''text/plain'' ''boom'')
                   \<lparr>Body := Some \<lparr>unread = [], ops = [OpRead]\<rparr>\<rparr>)
        = body_ops (sample_Response 500 ''text/plain'' ''boom'')
      \<or> body_ops ((sample_Response 500 ''text/plain'' ''boom'')
                   \<lparr>Body := Some \<lparr>unread = [], ops = [OpRead]\<rparr>\<rparr>)
        = body_ops (sample_Response 500 ''text/plain'' ''boom'') @ [OpRead])
   \<and> (\<exists>e resp'.
          (Check sample_ext (Some (sample_Response 500 ''text/plain'' ''boom'')) None
             :: panic + (http_Response option \<times> unit error option \<times> http_Response option))
            = Inr (None, Some e, Some resp')
          \<and> (body_ops resp' = body_ops (sample_Response 500 ''text/plain'' ''boom'') @ [OpClose]
               \<or> body_ops resp'
                  = body_ops (sample_Response 500 ''text/plain'' ''boom'') @ [OpRead, OpClose]))"
proof -
  define r where "r = sample_Response 500 ''text/plain'' ''boom''"
  have rej: "\<not> DefaultResponseChecker r"
    unfolding r_def by code_simp
  have res: "(CheckResponse sample_ext r DefaultResponseChecker
        :: panic + (unit error option \<times> http_Response))
     = Inr (Some (url_Error ''GET'' ''http://x/y''
                    \<lparr>StatusError.StatusCode = 500, Message = ''boom''\<rparr>),
            r\<lparr>Body := Some \<lparr>unread = [], ops = [OpRead]\<rparr>\<rparr>)"
    unfolding r_def by code_simp
  have ok: "Body r \<noteq> None \<and> (\<forall>req. Request r = Some req \<longrightarrow> URL req \<noteq> None)"
    by (auto simp: r_def sample_Response_def)
  note t = CheckResponse_leaves_body_open [of DefaultResponseChecker r sample_ext, where ?'e = unit]
  from t rej res
  have 1: "Some (url_Error ''GET'' ''http://x/y'' \<lparr>StatusError.StatusCode = 500, Message = ''boom''\<rparr>
          :: unit error) \<noteq> None
   \<and> (body_ops (r\<lparr>Body := Some \<lparr>unread = [], ops = [OpRead]\<rparr>\<rparr>) = body_ops r
      \<or> body_ops (r\<lparr>Body := Some \<lparr>unread = [], ops = [OpRead]\<rparr>\<rparr>) = body_ops r @ [OpRead])"
    by blast
  from t rej ok
  have 2: "\<exists>e resp'.
          (Check sample_ext (Some r) None
             :: panic + (http_Response option \<times> unit error option \<times> http_Response option))
            = Inr (None, Some e, Some resp')
          \<and> (body_ops resp' = body_ops r @ [OpClose]
               \<or> body_ops resp' = body_ops r @ [OpRead, OpClose])"
    by blast
  from 1 2 show ?thesis unfolding r_def by blast
qed

section \<open>HTML bodies\<close>

subsection \<open>The newline pattern\<close>

lemma nlre_unit_LF: "nlre_unit s = Some r \<Longrightarrow> LF \<in> set s"
  by (induction s rule: nlre_unit.induct) (auto split: if_splits)

lemma nlre_unit_head: "nlre_unit (c # cs) = None \<Longrightarrow> c \<noteq> LF"
  by (cases cs) (auto split: if_splits)

lemma nlre_no_LF:
  "LF \<notin> set repl \<Longrightarrow> LF \<notin> set (nlre_ReplaceAllString s repl)"
proof (induction s repl rule: nlre_ReplaceAllString.induct)
  case (1 repl)
  show ?case by simp
next
  case (2 c cs repl)
  show ?case
  proof (cases "nlre_match (c # cs)")
    case None
    then have "c \<noteq> LF" by (auto simp: nlre_match_def dest: nlre_unit_head)
    with None 2 show ?thesis by simp
  next
    case (Some rest)
    with 2 show ?thesis by simp
  qed
qed

lemma nlre_unchanged:
  "LF \<notin> set s \<Longrightarrow> nlre_ReplaceAllString s repl = s"
proof (induction s)
  case Nil
  show ?case by simp
next
  case (Cons c cs)
  then have "nlre_match (c # cs) = None"
    by (cases "nlre_unit (c # cs)") (auto simp: nlre_match_def dest: nlre_unit_LF)
  with Cons show ?case by simp
qed

lemma nlre_unit_LF_cons: "nlre_unit (LF # t) = Some t"
  by (cases t) (auto simp: LF_def CR_def)

lemma nlre_more_units:
  "set us \<subseteq> {[LF], [CR, LF]} \<Longrightarrow> nlre_unit t = None \<Longrightarrow> nlre_more (concat us @ t) = t"
proof (induction us)
  case Nil
  then show ?case by (simp add: nlre_more.simps [of t])
next
  case (Cons u us)
  then consider "u = [LF]" | "u = [CR, LF]" by auto
  then show ?case
  proof cases
    case 1
    with Cons show ?thesis
      by (simp add: nlre_more.simps [of "LF # concat us @ t"] nlre_unit_LF_cons)
  next
    case 2
    with Cons show ?thesis
      by (simp add: nlre_more.simps [of "CR # LF # concat us @ t"])
  qed
qed

lemma nlre_run:
  assumes "us \<noteq> []" "set us \<subseteq> {[LF], [CR, LF]}" "nlre_unit t = None"
  shows "nlre_ReplaceAllString (concat us @ t) repl = repl @ nlre_ReplaceAllString t repl"
proof -
  from assms(1) obtain u us' where us: "us = u # us'" by (cases us) auto
  with assms(2) have u: "u = [LF] \<or> u = [CR, LF]" and us': "set us' \<subseteq> {[LF], [CR, LF]}"
    by auto
  have m: "nlre_more (concat us' @ t) = t"
    using us' assms(3) by (rule nlre_more_units)
  from u show ?thesis
  proof
    assume "u = [LF]"
    then have "concat us @ t = LF # (concat us' @ t)" by (simp add: us)
    moreover have "nlre_match (LF # (concat us' @ t)) = Some t"
      by (simp add: nlre_match_def nlre_unit_LF_cons m)
    ultimately show ?thesis by simp
  next
    assume "u = [CR, LF]"
    then have "concat us @ t = CR # (LF # concat us' @ t)" by (simp add: us)
    moreover have "nlre_match (CR # (LF # concat us' @ t)) = Some t"
      by (simp add: nlre_match_def m)
    ultimately show ?thesis by simp
  qed
qed

lemma nlre_prefix:
  "LF \<notin> set a \<Longrightarrow> \<not> (a \<noteq> [] \<and> last a = CR \<and> t \<noteq> [] \<and> hd t = LF) \<Longrightarrow>
   nlre_ReplaceAllString (a @ t) repl = a @ nlre_ReplaceAllString t repl"
proof (induction a)
  case Nil
  show ?case by simp
next
  case (Cons c a)
  note noLF = Cons.prems(1) and edge = Cons.prems(2)
  from noLF have c: "c \<noteq> LF" by auto
  have "nlre_unit (c # a @ t) = None"
  proof (cases "a @ t")
    case Nil
    with c show ?thesis by simp
  next
    case dr: (Cons d r)
    have "\<not> (c = CR \<and> d = LF)"
    proof
      assume cd: "c = CR \<and> d = LF"
      show False
      proof (cases a)
        case Nil
        with dr cd edge show False by (cases t) auto
      next
        case xs: (Cons x xs)
        with dr cd noLF show False by auto
      qed
    qed
    with dr c show ?thesis by simp
  qed
  then have "nlre_match (c # a @ t) = None" by (simp add: nlre_match_def)
  moreover have "nlre_ReplaceAllString (a @ t) repl = a @ nlre_ReplaceAllString t repl"
    using noLF edge by (intro Cons.IH) (auto split: if_splits)
  ultimately show ?case by simp
qed

subsection \<open>The white-space pattern\<close>

lemma space_match_None_iff:
  "space_match s = None \<longleftrightarrow> \<not> (\<exists>c d r. s = c # d # r \<and> is_space c \<and> is_space d)"
  by (induction s rule: space_match.induct) auto

lemma space_keeps_start:
  "\<not> starts_space s \<Longrightarrow> \<not> starts_space (space_ReplaceAllString s repl)"
proof (cases s)
  case Nil
  then show ?thesis by (simp add: starts_space_def)
next
  case (Cons x xs)
  assume "\<not> starts_space s"
  with Cons have x: "\<not> is_space x" by (simp add: starts_space_def)
  then have "space_match (x # xs) = None" by (simp add: space_match_None_iff)
  with Cons x show ?thesis by (simp add: starts_space_def)
qed

lemma has_space_run_Cons:
  "has_space_run (c # s) \<longleftrightarrow> (is_space c \<and> starts_space s) \<or> has_space_run s"
  by (cases s) (auto simp: starts_space_def)

lemma not_starts_dropWhile: "\<not> starts_space (dropWhile is_space r)"
  by (induction r) (auto simp: starts_space_def)

lemma space_no_run: "\<not> has_space_run (space_ReplaceAllString s '' '')"
proof (induction s "'' ''" rule: space_ReplaceAllString.induct)
  case 1
  show ?case by simp
next
  case (2 c cs)
  show ?case
  proof (cases "space_match (c # cs)")
    case None
    then have "\<not> (is_space c \<and> starts_space cs)"
      by (cases cs) (auto simp: starts_space_def space_match_None_iff)
    then have "\<not> (is_space c \<and> starts_space (space_ReplaceAllString cs '' ''))"
      using space_keeps_start by blast
    with None 2 show ?thesis by (simp add: has_space_run_Cons)
  next
    case (Some rest)
    then have "\<not> starts_space rest"
      by (induction "c # cs" rule: space_match.induct)
         (auto split: if_splits simp: not_starts_dropWhile)
    then have "\<not> starts_space (space_ReplaceAllString rest '' '')"
      by (rule space_keeps_start)
    with Some 2 show ?thesis by (simp add: has_space_run_Cons)
  qed
qed

lemma space_unchanged:
  "\<not> has_space_run s \<Longrightarrow> space_ReplaceAllString s repl = s"
proof (induction s)
  case Nil
  show ?case by simp
next
  case (Cons c cs)
  then have "space_match (c # cs) = None"
    by (cases cs) (auto simp: space_match_None_iff)
  with Cons show ?case by (simp add: has_space_run_Cons)
qed

lemma dropWhile_spaces:
  "\<forall>c\<in>set ws. is_space c \<Longrightarrow> \<not> starts_space t \<Longrightarrow> dropWhile is_space (ws @ t) = t"
  by (induction ws) (auto simp: starts_space_def split: list.splits)

lemma space_run:
  assumes "2 \<le> length ws" "\<forall>c\<in>set ws. is_space c" "\<not> starts_space t"
  shows "space_ReplaceAllString (ws @ t) repl = repl @ space_ReplaceAllString t repl"
proof -
  from assms(1) obtain c d w where ws: "ws = c # d # w"
    by (cases ws; cases "tl ws") auto
  with assms(2) have cd: "is_space c" "is_space d" and w: "\<forall>x\<in>set w. is_space x"
    by auto
  from w assms(3) have "dropWhile is_space (w @ t) = t" by (rule dropWhile_spaces)
  with cd have "space_match (c # d # w @ t) = Some t" by simp
  with ws show ?thesis by simp
qed

lemma space_prefix:
  "\<not> has_space_run a \<Longrightarrow> \<not> (a \<noteq> [] \<and> is_space (last a) \<and> starts_space t) \<Longrightarrow>
   space_ReplaceAllString (a @ t) repl = a @ space_ReplaceAllString t repl"
proof (induction a)
  case Nil
  show ?case by simp
next
  case (Cons c a)
  note norun = Cons.prems(1) and edge = Cons.prems(2)
  have "\<not> (is_space c \<and> starts_space (a @ t))"
  proof (cases a)
    case Nil
    with edge show ?thesis by simp
  next
    case xs: (Cons x xs)
    with norun show ?thesis by (auto simp: starts_space_def)
  qed
  then have "space_match (c # a @ t) = None"
    by (cases "a @ t") (auto simp: space_match_None_iff starts_space_def)
  moreover have "space_ReplaceAllString (a @ t) repl = a @ space_ReplaceAllString t repl"
    using norun edge by (intro Cons.IH) (auto simp: has_space_run_Cons split: if_splits)
  ultimately show ?case by simp
qed

subsection \<open>TrimSpace\<close>

lemma space_runes_nonempty: "w \<in> set space_runes \<Longrightarrow> w \<noteq> []"
  by (auto simp: space_runes_def)

lemma leading_space_iff:
  "leading_space s \<noteq> 0 \<longleftrightarrow> (\<exists>w\<in>set space_runes. HasPrefix s w)"
proof (cases "find (HasPrefix s) space_runes")
  case None
  then have "leading_space s = 0" by (simp add: leading_space_def)
  moreover from None have "\<not> (\<exists>w\<in>set space_runes. HasPrefix s w)"
    by (simp add: find_None_iff)
  ultimately show ?thesis by simp
next
  case (Some w)
  then have "HasPrefix s w" "w \<in> set space_runes"
    by (auto simp: find_Some_iff)
  with Some show ?thesis
    by (auto simp: leading_space_def dest: space_runes_nonempty)
qed

lemma trailing_space_iff:
  "trailing_space s \<noteq> 0 \<longleftrightarrow> (\<exists>w\<in>set space_runes. HasSuffix s w)"
proof (cases "find (HasSuffix s) space_runes")
  case None
  then have "trailing_space s = 0" by (simp add: trailing_space_def)
  moreover from None have "\<not> (\<exists>w\<in>set space_runes. HasSuffix s w)"
    by (simp add: find_None_iff)
  ultimately show ?thesis by simp
next
  case (Some w)
  then have "HasSuffix s w" "w \<in> set space_runes"
    by (auto simp: find_Some_iff)
  with Some show ?thesis
    by (auto simp: trailing_space_def dest: space_runes_nonempty)
qed

lemma leading_space_split:
  assumes "leading_space s \<noteq> 0"
  shows "\<exists>w\<in>set space_runes. s = w @ drop (leading_space s) s"
proof -
  from assms obtain w where w: "find (HasPrefix s) space_runes = Some w"
    by (auto simp: leading_space_def split: option.splits)
  then have "HasPrefix s w" "w \<in> set space_runes" by (auto simp: find_Some_iff)
  moreover from w have "leading_space s = length w" by (simp add: leading_space_def)
  ultimately show ?thesis
    by (metis HasPrefix_def append_take_drop_id)
qed

lemma trailing_space_split:
  assumes "trailing_space s \<noteq> 0"
  shows "\<exists>w\<in>set space_runes. s = take (length s - trailing_space s) s @ w"
proof -
  from assms obtain w where w: "find (HasSuffix s) space_runes = Some w"
    by (auto simp: trailing_space_def split: option.splits)
  then have "HasSuffix s w" "w \<in> set space_runes" by (auto simp: find_Some_iff)
  moreover from w have "trailing_space s = length w" by (simp add: trailing_space_def)
  ultimately show ?thesis
    by (metis HasSuffix_def append_take_drop_id)
qed

lemma TrimLeftSpace_done: "leading_space (TrimLeftSpace s) = 0"
  by (induction s rule: TrimLeftSpace.induct) (simp add: TrimLeftSpace.simps)

lemma TrimRightSpace_done: "trailing_space (TrimRightSpace s) = 0"
  by (induction s rule: TrimRightSpace.induct) (simp add: TrimRightSpace.simps)

lemma TrimLeftSpace_split:
  "\<exists>ws. set ws \<subseteq> set space_runes \<and> s = concat ws @ TrimLeftSpace s"
proof (induction s rule: TrimLeftSpace.induct)
  case (1 s)
  show ?case
  proof (cases "leading_space s = 0")
    case True
    then have "s = concat [] @ TrimLeftSpace s" by (simp add: TrimLeftSpace.simps)
    then show ?thesis by (metis empty_set empty_subsetI)
  next
    case False
    then obtain w where w: "w \<in> set space_runes" "s = w @ drop (leading_space s) s"
      using leading_space_split by blast
    from 1 [OF False] obtain ws where ws: "set ws \<subseteq> set space_runes"
      "drop (leading_space s) s = concat ws @ TrimLeftSpace (drop (leading_space s) s)"
      by blast
    from False have t: "TrimLeftSpace s = TrimLeftSpace (drop (leading_space s) s)"
      by (simp add: TrimLeftSpace.simps [of s])
    from w(2) ws(2) t have "s = concat (w # ws) @ TrimLeftSpace s" by simp
    moreover from w(1) ws(1) have "set (w # ws) \<subseteq> set space_runes" by simp
    ultimately show ?thesis by blast
  qed
qed

lemma TrimRightSpace_split:
  "\<exists>ws. set ws \<subseteq> set space_runes \<and> s = TrimRightSpace s @ concat ws"
proof (induction s rule: TrimRightSpace.induct)
  case (1 s)
  show ?case
  proof (cases "trailing_space s = 0")
    case True
    then have "s = TrimRightSpace s @ concat []" by (simp add: TrimRightSpace.simps)
    then show ?thesis by (metis empty_set empty_subsetI)
  next
    case False
    let ?p = "take (length s - trailing_space s) s"
    from False obtain w where w: "w \<in> set space_runes" "s = ?p @ w"
      using trailing_space_split by blast
    from 1 [OF False] obtain ws where ws: "set ws \<subseteq> set space_runes"
      "?p = TrimRightSpace ?p @ concat ws"
      by blast
    from False have t: "TrimRightSpace s = TrimRightSpace ?p"
      by (simp add: TrimRightSpace.simps [of s])
    from w(2) ws(2) t have "s = TrimRightSpace s @ concat (ws @ [w])"
      by (metis append.assoc append_Nil2 concat.simps(1) concat.simps(2) concat_append)
    moreover from w(1) ws(1) have "set (ws @ [w]) \<subseteq> set space_runes" by simp
    ultimately show ?thesis by blast
  qed
qed

lemma leading_space_prefix:
  assumes "leading_space (p @ q) = 0"
  shows "leading_space p = 0"
proof (rule ccontr)
  assume "leading_space p \<noteq> 0"
  then obtain w where "w \<in> set space_runes" "HasPrefix p w"
    using leading_space_iff by blast
  then obtain r where "w \<in> set space_runes" "p = w @ r"
    by (auto simp: HasPrefix_iff)
  then have "w \<in> set space_runes" "HasPrefix (p @ q) w"
    by (simp_all add: HasPrefix_iff)
  then have "\<exists>w\<in>set space_runes. HasPrefix (p @ q) w" by blast
  with assms show False by (simp add: leading_space_iff [symmetric])
qed

lemma TrimSpace_trimmed:
  "leading_space (TrimSpace s) = 0 \<and> trailing_space (TrimSpace s) = 0"
proof -
  obtain ws where "TrimLeftSpace s = TrimRightSpace (TrimLeftSpace s) @ concat ws"
    using TrimRightSpace_split by blast
  then have "leading_space (TrimRightSpace (TrimLeftSpace s) @ concat ws) = 0"
    by (simp add: TrimLeftSpace_done)
  then have "leading_space (TrimRightSpace (TrimLeftSpace s)) = 0"
    by (rule leading_space_prefix)
  then show ?thesis by (simp add: TrimSpace_def TrimRightSpace_done)
qed

lemma TrimSpace_split:
  "\<exists>ws1 ws2. set ws1 \<subseteq> set space_runes \<and> set ws2 \<subseteq> set space_runes
     \<and> s = concat ws1 @ TrimSpace s @ concat ws2"
proof -
  obtain ws1 where 1: "set ws1 \<subseteq> set space_runes" "s = concat ws1 @ TrimLeftSpace s"
    using TrimLeftSpace_split by blast
  obtain ws2 where 2: "set ws2 \<subseteq> set space_runes"
    "TrimLeftSpace s = TrimRightSpace (TrimLeftSpace s) @ concat ws2"
    using TrimRightSpace_split by blast
  from 1(2) 2(2) have "s = concat ws1 @ TrimSpace s @ concat ws2"
    by (simp add: TrimSpace_def)
  with 1(1) 2(1) show ?thesis by blast
qed

subsection \<open>The message of an HTML body\<close>

text \<open>
  C6. For a response whose media type is \<open>text/html\<close> the message is made from the
  body in four steps, in this order: conversion to plain text, \<open>strings.TrimSpace\<close>,
  the replacement of every match of \<open>(\r?\n)+\<close> by a colon and a space, and then the
  replacement of every match of \<open>\s\s+\<close> by one space. What the steps do is stated for
  each: the trimmed text is the text without the white-space runes at its two ends; a
  run of newlines that is not followed by a further newline is replaced as a whole, the
  text before it is kept, and no line feed is left; a run of two or more white-space
  bytes that is not followed by a further one is replaced as a whole, the text before
  it is kept, and no two adjacent white-space bytes are left. The order matters: two
  line feeds between \<open>a\<close> and \<open>b\<close> give \<open>a: b\<close>, and would give \<open>a b\<close> if the white
  space were collapsed first.
\<close>

theorem extractMessage_text_html:
  "(vendor_mtype (parsed_mtype ext resp) = ''text/html'' \<and> Body resp = Some b \<longrightarrow>
      extractMessage ext resp =
        Inr (space_ReplaceAllString
               (nlre_ReplaceAllString (TrimSpace (HTML2Text ext (unread b))) '': '') '' '',
             resp\<lparr>Body := Some (b\<lparr>unread := [], ops := ops b @ [OpRead]\<rparr>)\<rparr>))
   \<and> leading_space (TrimSpace s) = 0 \<and> trailing_space (TrimSpace s) = 0
   \<and> (\<exists>ws1 ws2. set ws1 \<subseteq> set space_runes \<and> set ws2 \<subseteq> set space_runes
         \<and> s = concat ws1 @ TrimSpace s @ concat ws2)
   \<and> (\<forall>us t. us \<noteq> [] \<and> set us \<subseteq> {[LF], [CR, LF]} \<and> nlre_unit t = None \<longrightarrow>
         nlre_ReplaceAllString (concat us @ t) '': '' = '': '' @ nlre_ReplaceAllString t '': '')
   \<and> (\<forall>a t. LF \<notin> set a \<and> \<not> (a \<noteq> [] \<and> last a = CR \<and> t \<noteq> [] \<and> hd t = LF) \<longrightarrow>
         nlre_ReplaceAllString (a @ t) '': '' = a @ nlre_ReplaceAllString t '': '')
   \<and> LF \<notin> set (nlre_ReplaceAllString s '': '')
   \<and> (\<forall>ws t. 2 \<le> length ws \<and> (\<forall>c\<in>set ws. is_space c) \<and> \<not> starts_space t \<longrightarrow>
         space_ReplaceAllString (ws @ t) '' '' = '' '' @ space_ReplaceAllString t '' '')
   \<and> (\<forall>a t. \<not> has_space_run a \<and> \<not> (a \<noteq> [] \<and> is_space (last a) \<and> starts_space t) \<longrightarrow>
         space_ReplaceAllString (a @ t) '' '' = a @ space_ReplaceAllString t '' '')
   \<and> \<not> has_space_run (space_ReplaceAllString s '' '')
   \<and> space_ReplaceAllString (nlre_ReplaceAllString (''a'' @ [LF, LF] @ ''b'') '': '') '' ''
       = ''a: b''
   \<and> nlre_ReplaceAllString (space_ReplaceAllString (''a'' @ [LF, LF] @ ''b'') '' '') '': ''
       = ''a b''"
proof -
  have 1: "vendor_mtype (parsed_mtype ext resp) = ''text/html'' \<and> Body resp = Some b \<longrightarrow>
      extractMessage ext resp =
        Inr (space_ReplaceAllString
               (nlre_ReplaceAllString (TrimSpace (HTML2Text ext (unread b))) '': '') '' '',
             resp\<lparr>Body := Some (b\<lparr>unread := [], ops := ops b @ [OpRead]\<rparr>)\<rparr>)"
    by (simp add: extractMessage_html)
  have 2: "leading_space (TrimSpace s) = 0 \<and> trailing_space (TrimSpace s) = 0"
    by (rule TrimSpace_trimmed)
  have 3: "\<exists>ws1 ws2. set ws1 \<subseteq> set space_runes \<and> set ws2 \<subseteq> set space_runes
         \<and> s = concat ws1 @ TrimSpace s @ concat ws2"
    by (rule TrimSpace_split)
  have 4: "\<forall>us t. us \<noteq> [] \<and> set us \<subseteq> {[LF], [CR, LF]} \<and> nlre_unit t = None \<longrightarrow>
         nlre_ReplaceAllString (concat us @ t) '': '' = '': '' @ nlre_ReplaceAllString t '': ''"
    using nlre_run by blast
  have 5: "\<forall>a t. LF \<notin> set a \<and> \<not> (a \<noteq> [] \<and> last a = CR \<and> t \<noteq> [] \<and> hd t = LF) \<longrightarrow>
         nlre_ReplaceAllString (a @ t) '': '' = a @ nlre_ReplaceAllString t '': ''"
    using nlre_prefix by blast
  have 6: "LF \<notin> set (nlre_ReplaceAllString s '': '')"
    by (rule nlre_no_LF) (simp add: LF_def)
  have 7: "\<forall>ws t. 2 \<le> length ws \<and> (\<forall>c\<in>set ws. is_space c) \<and> \<not> starts_space t \<longrightarrow>
         space_ReplaceAllString (ws @ t) '' '' = '' '' @ space_ReplaceAllString t '' ''"
    using space_run by blast
  have 8: "\<forall>a t. \<not> has_space_run a \<and> \<not> (a \<noteq> [] \<and> is_space (last a) \<and> starts_space t) \<longrightarrow>
         space_ReplaceAllString (a @ t) '' '' = a @ space_ReplaceAllString t '' ''"
    using space_prefix by blast
  have 9: "\<not> has_space_run (space_ReplaceAllString s '' '')"
    by (rule space_no_run)
  have 10: "space_ReplaceAllString (nlre_ReplaceAllString (''a'' @ [LF, LF] @ ''b'') '': '') '' ''
       = ''a: b''"
    by code_simp
  have 11: "nlre_ReplaceAllString (space_ReplaceAllString (''a'' @ [LF, LF] @ ''b'') '' '') '': ''
       = ''a b''"
    by code_simp
  show ?thesis
    by (intro conjI 1 2 [THEN conjunct1] 2 [THEN conjunct2] 3 4 5 6 7 8 9 10 11)
qed

theorem extractMessage_text_html_witness:
  "extractMessage sample_ext
     (sample_Response 500 ''text/html'' (''  <h1>Error</h1>'' @ [LF, LF] @ ''<p>it   broke</p> ''))
     = Inr (''Error: it broke'',
            (sample_Response 500 ''text/html''
               (''  <h1>Error</h1>'' @ [LF, LF] @ ''<p>it   broke</p> ''))
              \<lparr>Body := Some \<lparr>unread = [], ops = [OpRead]\<rparr>\<rparr>)
   \<and> nlre_ReplaceAllString (''Error'' @ [CR, LF, LF] @ ''it   broke'') '': ''
       = ''Error: it   broke''
   \<and> space_ReplaceAllString ''Error: it   broke'' '' '' = ''Error: it broke''"
proof -
  define data where "data = ''  <h1>Error</h1>'' @ [LF, LF] @ ''<p>it   broke</p> ''"
  define r where "r = sample_Response 500 ''text/html'' data"
  have h1: "vendor_mtype (parsed_mtype sample_ext r) = ''text/html''"
    unfolding r_def data_def by code_simp
  have h2: "Body r = Some (sample_Body data)"
    by (simp add: r_def sample_Response_def)
  have p: "space_ReplaceAllString
      (nlre_ReplaceAllString (TrimSpace (HTML2Text sample_ext data)) '': '')
      '' '' = ''Error: it broke''"
    unfolding data_def by code_simp
  note t = extractMessage_text_html [of sample_ext r "sample_Body data" "[]"]
  from t h1 h2 have "extractMessage sample_ext r =
      Inr (space_ReplaceAllString
             (nlre_ReplaceAllString (TrimSpace (HTML2Text sample_ext (unread (sample_Body data)))) '': '')
             '' '',
           r\<lparr>Body := Some ((sample_Body data)\<lparr>unread := [], ops := ops (sample_Body data) @ [OpRead]\<rparr>)\<rparr>)"
    by blast
  then have 1: "extractMessage sample_ext r =
      Inr (''Error: it broke'', r\<lparr>Body := Some \<lparr>unread = [], ops = [OpRead]\<rparr>\<rparr>)"
    by (simp add: p sample_Body_def)
  \<comment> \<open>the newline rule: the text before the run, the run, the text after it\<close>
  have n1: "LF \<notin> set ''Error'' \<and> \<not> (''Error'' \<noteq> [] \<and> last ''Error'' = CR
      \<and> [CR, LF, LF] @ ''it   broke'' \<noteq> [] \<and> hd ([CR, LF, LF] @ ''it   broke'') = LF)"
    by (simp add: LF_def CR_def)
  have n2: "[[CR, LF], [LF]] \<noteq> [] \<and> set [[CR, LF], [LF]] \<subseteq> {[LF], [CR, LF]}
      \<and> nlre_unit ''it   broke'' = None"
    by (simp add: LF_def CR_def)
  have n3: "LF \<notin> set ''it   broke'' \<and> \<not> (''it   broke'' \<noteq> [] \<and> last ''it   broke'' = CR
      \<and> ([] :: string) \<noteq> [] \<and> hd ([] :: string) = LF)"
    by (simp add: LF_def)
  from t n1 have "nlre_ReplaceAllString (''Error'' @ [CR, LF, LF] @ ''it   broke'') '': ''
      = ''Error'' @ nlre_ReplaceAllString ([CR, LF, LF] @ ''it   broke'') '': ''"
    by blast
  moreover from t n2 have "nlre_ReplaceAllString (concat [[CR, LF], [LF]] @ ''it   broke'') '': ''
      = '': '' @ nlre_ReplaceAllString ''it   broke'' '': ''"
    by blast
  moreover from t n3 have "nlre_ReplaceAllString (''it   broke'' @ []) '': ''
      = ''it   broke'' @ nlre_ReplaceAllString [] '': ''"
    by blast
  ultimately have 2: "nlre_ReplaceAllString (''Error'' @ [CR, LF, LF] @ ''it   broke'') '': ''
       = ''Error: it   broke''"
    by simp
  \<comment> \<open>the white-space rule\<close>
  have s1: "\<not> has_space_run ''Error: it'' \<and> \<not> (''Error: it'' \<noteq> [] \<and> is_space (last ''Error: it'')
      \<and> starts_space ''   broke'')"
    by (simp add: is_space_def)
  have s2: "2 \<le> length ''   '' \<and> (\<forall>c\<in>set ''   ''. is_space c) \<and> \<not> starts_space ''broke''"
    by (simp add: is_space_def starts_space_def)
  have s3: "\<not> has_space_run ''broke'' \<and> \<not> (''broke'' \<noteq> [] \<and> is_space (last ''broke'')
      \<and> starts_space [])"
    by (simp add: is_space_def)
  from t s1 have "space_ReplaceAllString (''Error: it'' @ ''   broke'') '' ''
      = ''Error: it'' @ space_ReplaceAllString ''   broke'' '' ''"
    by blast
  moreover from t s2 have "space_ReplaceAllString (''   '' @ ''broke'') '' ''
      = '' '' @ space_ReplaceAllString ''broke'' '' ''"
    by blast
  moreover from t s3 have "space_ReplaceAllString (''broke'' @ []) '' ''
      = ''broke'' @ space_ReplaceAllString [] '' ''"
    by blast
  ultimately have 3: "space_ReplaceAllString ''Error: it   broke'' '' '' = ''Error: it broke''"
    by simp
  from 1 2 3 show ?thesis unfolding r_def data_def by blast
qed

end
